theory Spec2Isabelle
  imports Main
begin

section \<open>Mutation records, caret anchors and batches\<close>

text \<open>
  Nodes of the live document are referred to by identity; a node identity is a natural
  number indexing the document heap below. A mutation record has the fields of the
  typedef \<open>UndoBufferRecord\<close> of \<open>editor.js\<close>; \<open>Node | null\<close> is \<open>nat option\<close>.
\<close>

datatype record_type = Attributes | CharacterData | ChildList

record UndoBufferRecord =
  rtype :: record_type
  target :: nat
  addedNodes :: "nat list"
  removedNodes :: "nat list"
  previousSibling :: "nat option"
  nextSibling :: "nat option"
  attributeName :: "string option"
  attributeNamespace :: "string option"
  oldValue :: "string option"
  newValue :: "string option"

text \<open>The Range-compatible object returned by \<open>UndoBuffer.getCaret\<close>.\<close>

record caret =
  startContainer :: nat
  startOffset :: int
  endContainer :: nat
  endOffset :: int

text \<open>
  A batch holds its array of records by reference, as the object \<open>{records, oldRange,
  newRange}\<close> of \<open>push\<close> does: \<open>records\<close> is the address of the array on the heap
  of record arrays (the field \<open>arrays\<close> of the buffer's state below).
\<close>

record UndoBufferPiece =
  records :: nat
  oldRange :: caret
  newRange :: "caret option"

text \<open>
  An element of the array \<open>#buffer\<close>: a batch, the empty array \<open>[]\<close> that \<open>push\<close>
  writes over a stale slot, or an array hole (\<open>undefined\<close>).
\<close>

datatype slot = Piece UndoBufferPiece | Cleared | Hole

datatype error =
  TypeError | NotFoundError | HierarchyRequestError | IndexSizeError
| InvalidCharacterError | NamespaceError

section \<open>The document heap\<close>

datatype node_type =
  ELEMENT_NODE | TEXT_NODE | CDATA_SECTION_NODE | COMMENT_NODE | DOCUMENT_NODE

text \<open>
  An attribute has a namespace, a namespace prefix, a local name and a value; its
  qualified name is the local name, or the prefix, a colon and the local name.
\<close>

record attr =
  attrNamespace :: "string option"
  attrPrefix :: "string option"
  attrLocal :: string
  attrValue :: string

text \<open>
  \<open>tag\<close> holds \<open>tagName.toLowerCase()\<close> of an element; \<open>htmlElement\<close> tells an
  element in the HTML namespace (of an HTML document), for which the host looks up
  attribute names in lower case. \<open>attrs\<close> is the attribute list, in order.
\<close>

record dnode =
  nodeType :: node_type
  tag :: string
  htmlElement :: bool
  nodeValue :: "string option"
  attrs :: "attr list"
  childNodes :: "nat list"
  parentNode :: "nat option"

text \<open>
  The host: the node heap, the next unused node identity, and the window's selection
  (\<open>None\<close> when \<open>rangeCount\<close> is 0). The selection is a snapshot: the host's
  adjustment of live ranges under tree mutations is not modelled.
\<close>

record world =
  nodes :: "nat \<Rightarrow> dnode"
  fresh :: nat
  selection :: "caret option"

definition node_upd :: "world \<Rightarrow> nat \<Rightarrow> (dnode \<Rightarrow> dnode) \<Rightarrow> world" where
  "node_upd w n f = w\<lparr>nodes := (nodes w)(n := f (nodes w n))\<rparr>"

definition node_previousSibling :: "world \<Rightarrow> nat \<Rightarrow> nat option" where
  "node_previousSibling w n =
     (case parentNode (nodes w n) of
        None \<Rightarrow> None
      | Some p \<Rightarrow>
          (case takeWhile (\<lambda>x. x \<noteq> n) (childNodes (nodes w p)) of
             [] \<Rightarrow> None
           | xs \<Rightarrow> Some (last xs)))"

definition node_nextSibling :: "world \<Rightarrow> nat \<Rightarrow> nat option" where
  "node_nextSibling w n =
     (case parentNode (nodes w n) of
        None \<Rightarrow> None
      | Some p \<Rightarrow>
          (case dropWhile (\<lambda>x. x \<noteq> n) (childNodes (nodes w p)) of
             _ # y # _ \<Rightarrow> Some y
           | _ \<Rightarrow> None))"

text \<open>The length of a node: its data's length, or the number of its children.\<close>

definition node_length :: "world \<Rightarrow> nat \<Rightarrow> int" where
  "node_length w n =
     (if nodeType (nodes w n) \<in> {TEXT_NODE, CDATA_SECTION_NODE, COMMENT_NODE}
      then (case nodeValue (nodes w n) of None \<Rightarrow> 0 | Some s \<Rightarrow> int (length s))
      else int (length (childNodes (nodes w n))))"

text \<open>
  Setting \<open>nodeValue\<close>: on character data it replaces the data (\<open>null\<close> reads as the
  empty string); on any other node it does nothing.
\<close>

definition set_nodeValue :: "world \<Rightarrow> nat \<Rightarrow> string option \<Rightarrow> world" where
  "set_nodeValue w n v =
     (if nodeType (nodes w n) \<in> {TEXT_NODE, CDATA_SECTION_NODE, COMMENT_NODE}
      then node_upd w n (\<lambda>d. d\<lparr>nodeValue := Some (case v of None \<Rightarrow> [] | Some s \<Rightarrow> s)\<rparr>)
      else w)"

text \<open>
  Attributes, after the DOM standard. \<open>getAttribute\<close>, \<open>setAttribute\<close> and
  \<open>removeAttribute\<close> address the first attribute whose qualified name is the given name
  (in lower case on an HTML element); the \<open>NS\<close> variants address the attribute of a
  namespace and a local name, the empty namespace being \<open>null\<close>. \<open>setAttribute\<close>
  creates an attribute without namespace and prefix; \<open>setAttributeNS\<close> splits the
  qualified name at its first colon. Both validate the name.
\<close>

definition qualifiedName :: "attr \<Rightarrow> string" where
  "qualifiedName a =
     (case attrPrefix a of None \<Rightarrow> attrLocal a | Some p \<Rightarrow> p @ '':'' @ attrLocal a)"

definition ascii_lower :: "string \<Rightarrow> string" where
  "ascii_lower s =
     map (\<lambda>c. if 65 \<le> (of_char c :: nat) \<and> (of_char c :: nat) \<le> 90
               then char_of ((of_char c :: nat) + 32) else c) s"

definition html_name :: "world \<Rightarrow> nat \<Rightarrow> string \<Rightarrow> string" where
  "html_name w n q = (if htmlElement (nodes w n) then ascii_lower q else q)"

definition namespace_of :: "string \<Rightarrow> string option" where
  "namespace_of ns = (if ns = [] then None else Some ns)"

text \<open>
  A valid attribute local name is not empty and holds no ASCII whitespace, NUL,
  \<open>/\<close>, \<open>=\<close> or \<open>>\<close>; a valid namespace prefix may hold \<open>=\<close>.
\<close>

definition valid_attr_local :: "string \<Rightarrow> bool" where
  "valid_attr_local s =
     (s \<noteq> [] \<and> list_all (\<lambda>c. (of_char c :: nat) \<notin> {0, 9, 10, 12, 13, 32, 47, 61, 62}) s)"

definition valid_prefix :: "string \<Rightarrow> bool" where
  "valid_prefix s =
     (s \<noteq> [] \<and> list_all (\<lambda>c. (of_char c :: nat) \<notin> {0, 9, 10, 12, 13, 32, 47, 62}) s)"

definition xml_namespace :: string where
  "xml_namespace = ''http://www.w3.org/XML/1998/namespace''"

definition xmlns_namespace :: string where
  "xmlns_namespace = ''http://www.w3.org/2000/xmlns/''"

text \<open>Validating a namespace and a qualified name and extracting the prefix and the local name.\<close>

definition extract_name :: "string \<Rightarrow> string \<Rightarrow> error + string option \<times> string option \<times> string" where
  "extract_name ns q =
     (let nsp = namespace_of ns;
          pre = (if CHR '':'' \<in> set q then Some (takeWhile (\<lambda>c. c \<noteq> CHR '':'') q) else None);
          loc = (if CHR '':'' \<in> set q then tl (dropWhile (\<lambda>c. c \<noteq> CHR '':'') q) else q)
      in if (case pre of None \<Rightarrow> False | Some p \<Rightarrow> \<not> valid_prefix p) then Inl InvalidCharacterError
         else if \<not> valid_attr_local loc then Inl InvalidCharacterError
         else if pre \<noteq> None \<and> nsp = None then Inl NamespaceError
         else if pre = Some ''xml'' \<and> nsp \<noteq> Some xml_namespace then Inl NamespaceError
         else if (q = ''xmlns'' \<or> pre = Some ''xmlns'') \<and> nsp \<noteq> Some xmlns_namespace
           then Inl NamespaceError
         else if nsp = Some xmlns_namespace \<and> q \<noteq> ''xmlns'' \<and> pre \<noteq> Some ''xmlns''
           then Inl NamespaceError
         else Inr (nsp, pre, loc))"

definition getAttribute :: "world \<Rightarrow> nat \<Rightarrow> string \<Rightarrow> string option" where
  "getAttribute w n q =
     map_option attrValue (find (\<lambda>a. qualifiedName a = html_name w n q) (attrs (nodes w n)))"

definition getAttributeNS :: "world \<Rightarrow> nat \<Rightarrow> string \<Rightarrow> string \<Rightarrow> string option" where
  "getAttributeNS w n ns l =
     map_option attrValue
       (find (\<lambda>a. attrNamespace a = namespace_of ns \<and> attrLocal a = l) (attrs (nodes w n)))"

text \<open>
  \<open>attr_set P a as\<close> changes the value of the first attribute that meets \<open>P\<close> to the
  value of \<open>a\<close>, or appends \<open>a\<close>; \<open>attr_del P as\<close> removes the first attribute that
  meets \<open>P\<close>.
\<close>

fun attr_set :: "(attr \<Rightarrow> bool) \<Rightarrow> attr \<Rightarrow> attr list \<Rightarrow> attr list" where
  "attr_set P a [] = [a]"
| "attr_set P a (x # xs) =
     (if P x then x\<lparr>attrValue := attrValue a\<rparr> # xs else x # attr_set P a xs)"

fun attr_del :: "(attr \<Rightarrow> bool) \<Rightarrow> attr list \<Rightarrow> attr list" where
  "attr_del P [] = []"
| "attr_del P (x # xs) = (if P x then xs else x # attr_del P xs)"

definition setAttribute :: "world \<Rightarrow> nat \<Rightarrow> string \<Rightarrow> string \<Rightarrow> error + world" where
  "setAttribute w n q v =
     (if \<not> valid_attr_local q then Inl InvalidCharacterError
      else Inr (node_upd w n (\<lambda>d. d\<lparr>attrs :=
                  attr_set (\<lambda>a. qualifiedName a = html_name w n q)
                    \<lparr>attrNamespace = None, attrPrefix = None, attrLocal = html_name w n q,
                     attrValue = v\<rparr> (attrs d)\<rparr>)))"

definition setAttributeNS :: "world \<Rightarrow> nat \<Rightarrow> string \<Rightarrow> string \<Rightarrow> string \<Rightarrow> error + world" where
  "setAttributeNS w n ns q v =
     (case extract_name ns q of
        Inl e \<Rightarrow> Inl e
      | Inr (nsp, pre, loc) \<Rightarrow>
          Inr (node_upd w n (\<lambda>d. d\<lparr>attrs :=
                 attr_set (\<lambda>a. attrNamespace a = nsp \<and> attrLocal a = loc)
                   \<lparr>attrNamespace = nsp, attrPrefix = pre, attrLocal = loc, attrValue = v\<rparr>
                   (attrs d)\<rparr>)))"

definition removeAttribute :: "world \<Rightarrow> nat \<Rightarrow> string \<Rightarrow> world" where
  "removeAttribute w n q =
     node_upd w n (\<lambda>d. d\<lparr>attrs := attr_del (\<lambda>a. qualifiedName a = html_name w n q) (attrs d)\<rparr>)"

definition removeAttributeNS :: "world \<Rightarrow> nat \<Rightarrow> string \<Rightarrow> string \<Rightarrow> world" where
  "removeAttributeNS w n ns l =
     node_upd w n (\<lambda>d. d\<lparr>attrs :=
        attr_del (\<lambda>a. attrNamespace a = namespace_of ns \<and> attrLocal a = l) (attrs d)\<rparr>)"

text \<open>
  Tree mutation, after the DOM's algorithms. \<open>detach\<close> removes a node from its parent;
  \<open>attach\<close> inserts a parentless node into a parent before a reference child, or at the
  end when there is none.
\<close>

definition detach :: "world \<Rightarrow> nat \<Rightarrow> world" where
  "detach w n =
     (case parentNode (nodes w n) of
        None \<Rightarrow> w
      | Some p \<Rightarrow>
          node_upd (node_upd w p (\<lambda>d. d\<lparr>childNodes := remove1 n (childNodes d)\<rparr>))
            n (\<lambda>d. d\<lparr>parentNode := None\<rparr>))"

definition ins_before :: "nat \<Rightarrow> nat option \<Rightarrow> nat list \<Rightarrow> nat list" where
  "ins_before x r cs =
     (case r of
        None \<Rightarrow> cs @ [x]
      | Some y \<Rightarrow> takeWhile (\<lambda>c. c \<noteq> y) cs @ x # dropWhile (\<lambda>c. c \<noteq> y) cs)"

definition attach :: "world \<Rightarrow> nat \<Rightarrow> nat \<Rightarrow> nat option \<Rightarrow> world" where
  "attach w p n r =
     node_upd (node_upd w p (\<lambda>d. d\<lparr>childNodes := ins_before n r (childNodes d)\<rparr>))
       n (\<lambda>d. d\<lparr>parentNode := Some p\<rparr>)"

text \<open>
  \<open>inclusive_ancestor w a n\<close>: \<open>a\<close> is \<open>n\<close> or one of its ancestors.
\<close>

inductive inclusive_ancestor :: "world \<Rightarrow> nat \<Rightarrow> nat \<Rightarrow> bool" for w :: world where
  ia_self: "inclusive_ancestor w n n"
| ia_parent:
    "parentNode (nodes w n) = Some q \<Longrightarrow> inclusive_ancestor w a q \<Longrightarrow> inclusive_ancestor w a n"

text \<open>
  The checks of the DOM's pre-insertion validity that apply to the node kinds of the
  model.
\<close>

definition insert_error :: "world \<Rightarrow> nat \<Rightarrow> nat \<Rightarrow> nat option \<Rightarrow> error option" where
  "insert_error w p n r =
     (if nodeType (nodes w p) \<notin> {ELEMENT_NODE, DOCUMENT_NODE} then Some HierarchyRequestError
      else if inclusive_ancestor w n p then Some HierarchyRequestError
      else if (case r of None \<Rightarrow> False | Some c \<Rightarrow> parentNode (nodes w c) \<noteq> Some p)
        then Some NotFoundError
      else if nodeType (nodes w n) = DOCUMENT_NODE then Some HierarchyRequestError
      else if nodeType (nodes w p) = DOCUMENT_NODE \<and> nodeType (nodes w n) \<in> {TEXT_NODE, CDATA_SECTION_NODE}
        then Some HierarchyRequestError
      else None)"

definition insertBefore :: "world \<Rightarrow> nat \<Rightarrow> nat \<Rightarrow> nat option \<Rightarrow> error + world" where
  "insertBefore w p n r =
     (case insert_error w p n r of
        Some e \<Rightarrow> Inl e
      | None \<Rightarrow>
          (let r' = (if r = Some n then node_nextSibling w n else r)
           in Inr (attach (detach w n) p n r')))"

definition removeChild :: "world \<Rightarrow> nat \<Rightarrow> nat \<Rightarrow> error + world" where
  "removeChild w p n =
     (if parentNode (nodes w n) \<noteq> Some p then Inl NotFoundError else Inr (detach w n))"

text \<open>\<open>p.replaceChild(n, c)\<close>: \<open>n\<close> takes the place of \<open>c\<close>.\<close>

definition replaceChild :: "world \<Rightarrow> nat \<Rightarrow> nat \<Rightarrow> nat \<Rightarrow> error + world" where
  "replaceChild w p n c =
     (if nodeType (nodes w p) \<notin> {ELEMENT_NODE, DOCUMENT_NODE} then Inl HierarchyRequestError
      else if inclusive_ancestor w n p then Inl HierarchyRequestError
      else if parentNode (nodes w c) \<noteq> Some p then Inl NotFoundError
      else if nodeType (nodes w n) = DOCUMENT_NODE then Inl HierarchyRequestError
      else if nodeType (nodes w p) = DOCUMENT_NODE \<and> nodeType (nodes w n) \<in> {TEXT_NODE, CDATA_SECTION_NODE}
        then Inl HierarchyRequestError
      else
        (let r = node_nextSibling w c;
             r' = (if r = Some n then node_nextSibling w n else r)
         in Inr (attach (detach (detach w c) n) p n r')))"

text \<open>Running a fallible step over a list of nodes, in order, up to the first error.\<close>

fun forEachE :: "('a \<Rightarrow> world \<Rightarrow> error + world) \<Rightarrow> 'a list \<Rightarrow> world \<Rightarrow> error + world" where
  "forEachE f [] w = Inr w"
| "forEachE f (x # xs) w = (case f x w of Inl e \<Rightarrow> Inl e | Inr w' \<Rightarrow> forEachE f xs w')"

text \<open>\<open>p.append(...ns)\<close>: the nodes are appended one after the other.\<close>

definition append_nodes :: "world \<Rightarrow> nat \<Rightarrow> nat list \<Rightarrow> error + world" where
  "append_nodes w p ns = forEachE (\<lambda>n v. insertBefore v p n None) ns w"

text \<open>\<open>document.createElement\<close>: a new parentless HTML element without children.\<close>

definition createElement :: "world \<Rightarrow> string \<Rightarrow> nat \<times> world" where
  "createElement w t =
     (fresh w,
      w\<lparr>nodes := (nodes w)(fresh w :=
           \<lparr>nodeType = ELEMENT_NODE, tag = t, htmlElement = True, nodeValue = None,
            attrs = [], childNodes = [], parentNode = None\<rparr>),
        fresh := Suc (fresh w)\<rparr>)"

text \<open>
  A well-formed tree: child lists and parent references agree, no child occurs twice,
  no node is an ancestor of its own parent, only elements and documents have children,
  and a document has no text child.
\<close>

definition tree_ok :: "world \<Rightarrow> bool" where
  "tree_ok w =
     ((\<forall>n c. (c \<in> set (childNodes (nodes w n))) = (parentNode (nodes w c) = Some n))
      \<and> (\<forall>n. distinct (childNodes (nodes w n)))
      \<and> (\<forall>n q. parentNode (nodes w n) = Some q \<longrightarrow>
             \<not> inclusive_ancestor w n q
             \<and> nodeType (nodes w q) \<in> {ELEMENT_NODE, DOCUMENT_NODE}
             \<and> nodeType (nodes w n) \<noteq> DOCUMENT_NODE
             \<and> \<not> (nodeType (nodes w q) = DOCUMENT_NODE
                   \<and> nodeType (nodes w n) \<in> {TEXT_NODE, CDATA_SECTION_NODE})))"

section \<open>The undo buffer\<close>

text \<open>
  The state of an \<open>UndoBuffer\<close> object: the ring buffer's capacity, indices and array,
  the last observed caret \<open>#range\<close>, the scratch array \<open>#tempBuffer\<close>, and the
  state of the controller: whether \<open>#observer\<close> and \<open>#tempObserver\<close> are
  connected, whether the \<open>beforeinput\<close> listener is installed, and the closure's
  variable \<open>oldValue\<close>. \<open>arrays\<close> is the heap of record arrays by address, which the
  object shares with its callers, and \<open>nextArray\<close> the address that the next new
  array takes. The records in an array are values.
\<close>

record UndoBuffer =
  editTarget :: nat
  bufferSize :: int
  offset :: int
  pos :: int
  endPos :: int
  buffer :: "slot list"
  arrays :: "nat \<Rightarrow> UndoBufferRecord list"
  nextArray :: nat
  caretRange :: caret
  tempBuffer :: "UndoBufferRecord list"
  observing :: bool
  tempObserving :: bool
  caretListening :: bool
  frozenValue :: "string option"

text \<open>
  The remainder operator \<open>%\<close> on integers: the result has the sign of the dividend,
  and the remainder by zero is \<open>NaN\<close>, here \<open>None\<close>.
\<close>

definition js_rem :: "int \<Rightarrow> int \<Rightarrow> int option" where
  "js_rem a b = (if b = 0 then None else Some (sgn a * (\<bar>a\<bar> mod \<bar>b\<bar>)))"

text \<open>
  Numbers are IEEE doubles. \<open>to_double x\<close> is the double nearest to the integer \<open>x\<close>
  (53 significant bits, ties to the even significand), \<open>None\<close> for an infinity; it is
  \<open>x\<close> itself up to \<open>2^53\<close>. \<open>bit_length n\<close> is the number of binary digits of
  \<open>n\<close>; a double has at most 1024 of them. \<open>js_add\<close> is the sum of two integer-valued
  doubles. The remainder of two doubles is exact.
\<close>

function bit_length :: "int \<Rightarrow> nat" where
  "bit_length n = (if n \<le> 0 then 0 else Suc (bit_length (n div 2)))"
  by pat_completeness auto
termination
  by (relation "measure nat") auto

declare bit_length.simps [simp del]

definition to_double :: "int \<Rightarrow> int option" where
  "to_double x =
     (let m = \<bar>x\<bar>;
          u = 2 ^ (bit_length m - 53);
          q = m div u;
          r = m mod u;
          q' = (if 2 * r < u then q else if u < 2 * r then q + 1
                else if even q then q else q + 1)
      in if 1024 < bit_length (q' * u) then None else Some (sgn x * (q' * u)))"

definition js_add :: "int \<Rightarrow> int \<Rightarrow> int option" where
  "js_add a b = to_double (a + b)"


text \<open>
  \<open>#existBuffer(readPos)\<close>. Every comparison with \<open>NaN\<close> is false, so the test is
  false on \<open>NaN\<close>.
\<close>

definition existBuffer :: "UndoBuffer \<Rightarrow> int option \<Rightarrow> bool" where
  "existBuffer ub readPos =
     (case readPos of
        None \<Rightarrow> False
      | Some r \<Rightarrow>
          (if offset ub \<noteq> endPos ub then
             (if offset ub < endPos ub then offset ub \<le> r \<and> r < endPos ub
              else offset ub \<le> r \<and> r < bufferSize ub \<or> 0 \<le> r \<and> r < endPos ub)
           else False))"

definition getCaret :: "world \<Rightarrow> caret option" where
  "getCaret w = selection w"

text \<open>
  \<open>UndoBuffer.updateCaret(range)\<close>: reading a property of \<open>null\<close> throws a TypeError,
  and \<open>setStart\<close> and \<open>setEnd\<close> throw an IndexSizeError on an offset beyond the
  node's length. The selection becomes the given anchor.
\<close>

definition updateCaret :: "world \<Rightarrow> caret option \<Rightarrow> error + world" where
  "updateCaret w r =
     (case r of
        None \<Rightarrow> Inl TypeError
      | Some c \<Rightarrow>
          (if startOffset c < 0 \<or> node_length w (startContainer c) < startOffset c
             then Inl IndexSizeError
           else if endOffset c < 0 \<or> node_length w (endContainer c) < endOffset c
             then Inl IndexSizeError
           else Inr (w\<lparr>selection := Some c\<rparr>)))"

text \<open>Reading and writing an element of a JavaScript array.\<close>

definition slot_at :: "slot list \<Rightarrow> int \<Rightarrow> slot" where
  "slot_at b i = (if 0 \<le> i \<and> i < int (length b) then b ! nat i else Hole)"

definition js_set :: "slot list \<Rightarrow> nat \<Rightarrow> slot \<Rightarrow> slot list" where
  "js_set b i v =
     (if i < length b then b[i := v] else b @ replicate (i - length b) Hole @ [v])"

text \<open>\<open>for (let i = lo; i < hi; ++i) buffer[i] = []\<close>, for indices that are not negative.\<close>

definition clear_slots :: "slot list \<Rightarrow> int \<Rightarrow> int \<Rightarrow> slot list" where
  "clear_slots b lo hi = foldl (\<lambda>a i. js_set a i Cleared) b [nat lo ..< nat hi]"

text \<open>
  The branch of \<open>push\<close> that writes a new batch; it runs only when \<open>bufferSize\<close> is
  positive, where \<open>%\<close> is defined. The batch holds the caller's array \<open>rs\<close>, an
  address. The sums \<open>#pos + 1\<close> and \<open>#offset + 1\<close> are exact: both indices are at
  most the length of the array \<open>#buffer\<close>, which is below \<open>2^32\<close>.
\<close>

definition push_new :: "world \<Rightarrow> UndoBuffer \<Rightarrow> nat \<Rightarrow> UndoBuffer" where
  "push_new w ub rs =
     (let piece = \<lparr>records = rs, oldRange = caretRange ub, newRange = getCaret w\<rparr>;
          b1 = (if pos ub < int (length (buffer ub))
                then (if 0 \<le> pos ub then (buffer ub)[nat (pos ub) := Piece piece] else buffer ub)
                else buffer ub @ [Piece piece]);
          p1 = (case js_rem (pos ub + 1) (bufferSize ub) of Some p \<Rightarrow> p | None \<Rightarrow> pos ub);
          o1 = (if p1 = offset ub
                then (case js_rem (offset ub + 1) (bufferSize ub) of Some p \<Rightarrow> p | None \<Rightarrow> offset ub)
                else offset ub);
          b2 = (if o1 < p1
                then clear_slots (clear_slots b1 p1 (int (length b1))) 0 o1
                else clear_slots b1 p1 o1)
      in ub\<lparr>buffer := b2, pos := p1, endPos := p1, offset := o1\<rparr>)"

text \<open>
  The index \<open>(#pos + #bufferSize - 1) % #bufferSize\<close> of the slot written last, which
  \<open>push\<close> calls \<open>writePos\<close> and \<open>undo\<close> calls \<open>readPos\<close>. The sum and the
  difference are rounded to doubles, which matters from a capacity of about \<open>2^53\<close>
  on; an infinity has the remainder \<open>NaN\<close>.
\<close>

definition lastWritten :: "UndoBuffer \<Rightarrow> int option" where
  "lastWritten ub =
     (case js_add (pos ub) (bufferSize ub) of
        None \<Rightarrow> None
      | Some s \<Rightarrow>
          (case js_add s (- 1) of
             None \<Rightarrow> None
           | Some t \<Rightarrow> js_rem t (bufferSize ub)))"

text \<open>
  \<open>push(records, mode)\<close>; \<open>rs\<close> is the address of the array \<open>records\<close>. With
  \<open>mode = true\<close> the records are appended in place to the array that the last batch
  holds, \<open>this.#buffer[writePos].records.push(...records)\<close>: the array changes on the
  heap, for every holder of its address.
\<close>

definition push :: "world \<Rightarrow> UndoBuffer \<Rightarrow> nat \<Rightarrow> bool \<Rightarrow> error + UndoBuffer" where
  "push w ub rs mode =
     (if bufferSize ub \<le> 0 then Inr ub
      else if mode then
        (let writePos = lastWritten ub
         in if existBuffer ub writePos then
              (case writePos of
                 None \<Rightarrow> Inl TypeError
               | Some i \<Rightarrow>
                   (case slot_at (buffer ub) i of
                      Piece p \<Rightarrow>
                        Inr (ub\<lparr>arrays := (arrays ub)(records p :=
                                   arrays ub (records p) @ arrays ub rs)\<rparr>)
                    | _ \<Rightarrow> Inl TypeError))
            else Inr (push_new w ub rs))
      else Inr (push_new w ub rs))"

text \<open>
  \<open>#undo(records)\<close>: one record, then the loop from the last record to the first. The
  record comes back with \<open>newValue\<close> set. The attribute methods exist on elements
  only; calling one on another node throws a TypeError.
\<close>

definition truthy :: "string option \<Rightarrow> bool" where
  "truthy s = (s \<noteq> None \<and> s \<noteq> Some [])"

definition attr_name :: "UndoBufferRecord \<Rightarrow> string" where
  "attr_name r = (case attributeName r of None \<Rightarrow> ''null'' | Some a \<Rightarrow> a)"

definition attr_ns :: "UndoBufferRecord \<Rightarrow> string" where
  "attr_ns r = (case attributeNamespace r of None \<Rightarrow> [] | Some a \<Rightarrow> a)"

definition undo_op :: "world \<Rightarrow> UndoBufferRecord \<Rightarrow> error + (world \<times> UndoBufferRecord)" where
  "undo_op w r =
     (case rtype r of
        CharacterData \<Rightarrow>
          Inr (set_nodeValue w (target r) (oldValue r),
               r\<lparr>newValue := nodeValue (nodes w (target r))\<rparr>)
      | Attributes \<Rightarrow>
          (if nodeType (nodes w (target r)) \<noteq> ELEMENT_NODE then Inl TypeError
           else
             (let r' = r\<lparr>newValue :=
                    (if truthy (attributeNamespace r)
                     then getAttributeNS w (target r) (attr_ns r) (attr_name r)
                     else getAttribute w (target r) (attr_name r))\<rparr>
              in case oldValue r of
                   None \<Rightarrow>
                     Inr (if truthy (attributeNamespace r)
                          then removeAttributeNS w (target r) (attr_ns r) (attr_name r)
                          else removeAttribute w (target r) (attr_name r), r')
                 | Some v \<Rightarrow>
                     (case (if truthy (attributeNamespace r)
                            then setAttributeNS w (target r) (attr_ns r) (attr_name r) v
                            else setAttribute w (target r) (attr_name r) v) of
                        Inl e \<Rightarrow> Inl e
                      | Inr w' \<Rightarrow> Inr (w', r'))))
      | ChildList \<Rightarrow>
          (case forEachE (\<lambda>n v. removeChild v (target r) n) (rev (addedNodes r)) w of
             Inl e \<Rightarrow> Inl e
           | Inr w1 \<Rightarrow>
               (case forEachE (\<lambda>n v. insertBefore v (target r) n (nextSibling r))
                       (rev (removedNodes r)) w1 of
                  Inl e \<Rightarrow> Inl e
                | Inr w2 \<Rightarrow> Inr (w2, r))))"

fun undo_loop :: "world \<Rightarrow> UndoBufferRecord list \<Rightarrow> nat \<Rightarrow> error + (world \<times> UndoBufferRecord list)" where
  "undo_loop w rs 0 = Inr (w, rs)"
| "undo_loop w rs (Suc i) =
     (case undo_op w (rs ! i) of
        Inl e \<Rightarrow> Inl e
      | Inr (w', r') \<Rightarrow> undo_loop w' (rs[i := r']) i)"

definition undo_records :: "world \<Rightarrow> UndoBufferRecord list \<Rightarrow> error + (world \<times> UndoBufferRecord list)" where
  "undo_records w rs = undo_loop w rs (length rs)"

text \<open>\<open>#redo(records)\<close>: one record, then the loop from the first record to the last.\<close>

definition redo_op :: "world \<Rightarrow> UndoBufferRecord \<Rightarrow> error + world" where
  "redo_op w r =
     (case rtype r of
        CharacterData \<Rightarrow> Inr (set_nodeValue w (target r) (newValue r))
      | Attributes \<Rightarrow>
          (if nodeType (nodes w (target r)) \<noteq> ELEMENT_NODE then Inl TypeError
           else
             (case newValue r of
                None \<Rightarrow>
                  Inr (if truthy (attributeNamespace r)
                       then removeAttributeNS w (target r) (attr_ns r) (attr_name r)
                       else removeAttribute w (target r) (attr_name r))
              | Some v \<Rightarrow>
                  (if truthy (attributeNamespace r)
                   then setAttributeNS w (target r) (attr_ns r) (attr_name r) v
                   else setAttribute w (target r) (attr_name r) v)))
      | ChildList \<Rightarrow>
          (case forEachE (\<lambda>n v. insertBefore v (target r) n (nextSibling r)) (addedNodes r) w of
             Inl e \<Rightarrow> Inl e
           | Inr w1 \<Rightarrow> forEachE (\<lambda>n v. removeChild v (target r) n) (removedNodes r) w1))"

definition redo_records :: "world \<Rightarrow> UndoBufferRecord list \<Rightarrow> error + world" where
  "redo_records w rs = forEachE (\<lambda>r v. redo_op v r) rs w"

text \<open>
  \<open>undo()\<close> and \<open>redo()\<close>. Reading \<open>records\<close> of a slot that holds no batch yields
  \<open>undefined\<close>, whose use throws a TypeError. \<open>#undo\<close> writes \<open>newValue\<close> into the
  records of the batch's array, on the heap. In \<open>redo\<close> the new \<open>#pos\<close> is
  \<open>NaN\<close> when \<open>bufferSize\<close> is zero; the model keeps \<open>#pos\<close> there, a case that no
  state built by the constructor and the three operations reaches.
\<close>

definition undo :: "UndoBuffer \<times> world \<Rightarrow> error + (UndoBuffer \<times> world)" where
  "undo s =
     (let ub = fst s; w = snd s; readPos = lastWritten ub
      in if existBuffer ub readPos then
           (case readPos of
              None \<Rightarrow> Inl TypeError
            | Some i \<Rightarrow>
                (case slot_at (buffer ub) i of
                   Piece p \<Rightarrow>
                     (case undo_records w (arrays ub (records p)) of
                        Inl e \<Rightarrow> Inl e
                      | Inr (w1, rs) \<Rightarrow>
                          (case updateCaret w1 (Some (oldRange p)) of
                             Inl e \<Rightarrow> Inl e
                           | Inr w2 \<Rightarrow>
                               Inr (ub\<lparr>arrays := (arrays ub)(records p := rs),
                                       pos := i, observing := True\<rparr>, w2)))
                 | _ \<Rightarrow> Inl TypeError))
         else Inr (ub, w))"

definition redo :: "UndoBuffer \<times> world \<Rightarrow> error + (UndoBuffer \<times> world)" where
  "redo s =
     (let ub = fst s; w = snd s; readPos = pos ub
      in if existBuffer ub (Some readPos) then
           (case slot_at (buffer ub) readPos of
              Piece p \<Rightarrow>
                (case redo_records w (arrays ub (records p)) of
                   Inl e \<Rightarrow> Inl e
                 | Inr w1 \<Rightarrow>
                     (case updateCaret w1 (newRange p) of
                        Inl e \<Rightarrow> Inl e
                      | Inr w2 \<Rightarrow>
                          Inr (ub\<lparr>pos := (case js_rem (pos ub + 1) (bufferSize ub) of
                                             Some q \<Rightarrow> q | None \<Rightarrow> pos ub),
                                  observing := True\<rparr>, w2)))
            | _ \<Rightarrow> Inl TypeError)
         else Inr (ub, w))"

section \<open>The normalizer\<close>

text \<open>
  The functions of the class \<open>Nomalizer\<close>. They edit the array \<open>records\<close> and the
  caret object \<open>range\<close> in place; here both are passed and returned. Loops whose
  termination depends on the heap are partial functions: \<open>None\<close> stands for a loop
  that does not return.
\<close>

text \<open>\<open>records.splice(i, 1)\<close> and \<open>records.splice(i, 0, r)\<close>.\<close>

definition splice_out :: "'a list \<Rightarrow> nat \<Rightarrow> 'a list" where
  "splice_out xs i = take i xs @ drop (Suc i) xs"

definition splice_in :: "'a list \<Rightarrow> nat \<Rightarrow> 'a \<Rightarrow> 'a list" where
  "splice_in xs i x = take i xs @ x # drop i xs"

function replaceOperation ::
  "UndoBufferRecord list \<Rightarrow> nat \<Rightarrow> nat \<Rightarrow> nat option \<Rightarrow> nat option \<Rightarrow> int \<Rightarrow> int
     \<Rightarrow> error + UndoBufferRecord list" where
  "replaceOperation rs node tgt prv nxt begin fin =
     (if begin = fin then Inr rs
      else if begin < 0 \<or> int (length rs) \<le> begin then Inl TypeError
      else
        (let r = rs ! nat begin in
         if rtype r = ChildList then
           (let r1 = (if target r = node then r\<lparr>target := tgt\<rparr> else r);
                r2 = (if previousSibling r1 = Some node then r1\<lparr>previousSibling := prv\<rparr> else r1);
                r3 = (if nextSibling r2 = Some node then r2\<lparr>nextSibling := nxt\<rparr> else r2)
            in replaceOperation (rs[nat begin := r3]) node tgt prv nxt (begin + 1) fin)
         else if target r = node then
           replaceOperation (splice_out rs (nat begin)) node tgt prv nxt begin (fin - 1)
         else replaceOperation rs node tgt prv nxt (begin + 1) fin))"
  by pat_completeness auto
termination
  by (relation "measure (\<lambda>(rs, node, tgt, prv, nxt, begin, fin). length rs - nat begin)")
     (auto simp: splice_out_def)

definition insertInsertOperation ::
  "world \<Rightarrow> UndoBufferRecord list \<Rightarrow> nat \<Rightarrow> nat list \<Rightarrow> nat \<Rightarrow> UndoBufferRecord list" where
  "insertInsertOperation w rs tgt ns idx =
     (if ns = [] then rs
      else splice_in rs idx
             \<lparr>rtype = ChildList, target = tgt, addedNodes = ns, removedNodes = [],
              previousSibling = node_previousSibling w (hd ns),
              nextSibling = node_nextSibling w (last ns),
              attributeName = None, attributeNamespace = None,
              oldValue = None, newValue = None\<rparr>)"

text \<open>
  \<open>cancelInsertOperation(records, i, j)\<close> returns the indices; the model also returns
  the record \<open>op\<close> as the caller's reference still sees it, whether or not it is left
  in \<open>records\<close>.
\<close>

definition cancelInsertOperation ::
  "UndoBufferRecord list \<Rightarrow> nat \<Rightarrow> nat
     \<Rightarrow> UndoBufferRecord list \<times> int \<times> int \<times> UndoBufferRecord" where
  "cancelInsertOperation rs i j =
     (let r = (rs ! i)\<lparr>addedNodes := splice_out (addedNodes (rs ! i)) j\<rparr>
      in if addedNodes r = [] then (splice_out rs i, int i - 1, int j - 1, r)
         else (rs[i := r], int i, int j - 1, r))"

text \<open>\<open>getChildIndex(node)\<close>: the number of siblings before the node.\<close>

definition getChildIndex :: "world \<Rightarrow> nat \<Rightarrow> int" where
  "getChildIndex w n =
     (case parentNode (nodes w n) of
        None \<Rightarrow> 0
      | Some p \<Rightarrow> int (length (takeWhile (\<lambda>x. x \<noteq> n) (childNodes (nodes w p)))))"

text \<open>
  The argument \<open>targets\<close> of \<open>moveNodeList\<close> is an array or the live list
  \<open>node.childNodes\<close>. A \<open>for ... of\<close> over the live list reads it by index while
  the loop body takes nodes out of it.
\<close>

datatype node_list = NodeArray "nat list" | ChildNodes nat

definition list_nodes :: "world \<Rightarrow> node_list \<Rightarrow> nat list" where
  "list_nodes w t = (case t of NodeArray ns \<Rightarrow> ns | ChildNodes n \<Rightarrow> childNodes (nodes w n))"

partial_function (option) move_live ::
  "world \<Rightarrow> nat \<Rightarrow> nat option \<Rightarrow> nat \<Rightarrow> nat \<Rightarrow> (error + world) option" where
  "move_live w p r src k =
     (if k < length (childNodes (nodes w src))
      then (case insertBefore w p (childNodes (nodes w src) ! k) r of
              Inl e \<Rightarrow> Some (Inl e)
            | Inr w' \<Rightarrow> move_live w' p r src (Suc k))
      else Some (Inr w))"

definition adjust_moved ::
  "caret option \<Rightarrow> nat option \<Rightarrow> int \<Rightarrow> int \<Rightarrow> int \<Rightarrow> nat \<Rightarrow> caret option" where
  "adjust_moved rng targetsParent offs childIndex len refParent =
     (case rng of
        None \<Rightarrow> None
      | Some c \<Rightarrow>
          (let c1 = (if Some (startContainer c) = targetsParent \<and> offs \<le> startOffset c
                        \<and> startOffset c \<le> offs + len
                     then c\<lparr>startContainer := refParent,
                            startOffset := startOffset c - offs + childIndex\<rparr>
                     else c);
               c2 = (if Some (endContainer c1) = targetsParent \<and> offs \<le> endOffset c1
                        \<and> endOffset c1 \<le> offs + len
                     then c1\<lparr>endContainer := refParent,
                             endOffset := endOffset c1 - offs + childIndex\<rparr>
                     else c1);
               c3 = (if targetsParent = None \<and> startContainer c2 = refParent
                        \<and> childIndex \<le> startOffset c2
                     then c2\<lparr>startOffset := startOffset c2 + len\<rparr> else c2);
               c4 = (if targetsParent = None \<and> endContainer c3 = refParent
                        \<and> childIndex \<le> endOffset c3
                     then c3\<lparr>endOffset := endOffset c3 + len\<rparr> else c3)
           in Some c4))"

definition moveNodeList ::
  "world \<Rightarrow> caret option \<Rightarrow> node_list \<Rightarrow> nat \<Rightarrow> nat option
     \<Rightarrow> (error + world \<times> caret option) option" where
  "moveNodeList w rng targets refParent ref =
     (case list_nodes w targets of
        [] \<Rightarrow> Some (Inr (w, rng))
      | t0 # _ \<Rightarrow>
          (let targetsParent = parentNode (nodes w t0);
               offs = getChildIndex w t0;
               childIndex = (case ref of
                               Some r \<Rightarrow> getChildIndex w r
                             | None \<Rightarrow> int (length (childNodes (nodes w refParent))));
               moved = (case ref of
                          Some r \<Rightarrow>
                            (case targets of
                               NodeArray ns \<Rightarrow>
                                 Some (forEachE (\<lambda>n v. insertBefore v refParent n (Some r)) ns w)
                             | ChildNodes src \<Rightarrow> move_live w refParent (Some r) src 0)
                        | None \<Rightarrow> Some (append_nodes w refParent (list_nodes w targets)))
           in case moved of
                None \<Rightarrow> None
              | Some (Inl e) \<Rightarrow> Some (Inl e)
              | Some (Inr w') \<Rightarrow>
                  Some (Inr (w', adjust_moved rng targetsParent offs childIndex
                                   (int (length (list_nodes w' targets))) refParent))))"

definition replaceNodeAndInsertOperation ::
  "world \<Rightarrow> UndoBufferRecord list \<Rightarrow> nat \<Rightarrow> nat \<Rightarrow> nat
     \<Rightarrow> error + world \<times> UndoBufferRecord list" where
  "replaceNodeAndInsertOperation w rs i j tgt =
     (let r = rs ! i; node = addedNodes r ! j
      in case replaceChild w (target r) tgt node of
           Inl e \<Rightarrow> Inl e
         | Inr w' \<Rightarrow>
             (let rs' = rs[i := r\<lparr>addedNodes := (addedNodes r)[j := tgt]\<rparr>]
              in case replaceOperation rs' node tgt (Some tgt) (Some tgt)
                        (int i + 1) (int (length rs')) of
                   Inl e \<Rightarrow> Inl e
                 | Inr rs'' \<Rightarrow> Inr (w', rs'')))"

text \<open>
  The three rewriting functions return the array, the indices \<open>[i, j]\<close> and the record
  \<open>op\<close> of the caller.
\<close>

type_synonym nstate =
  "world \<times> caret option \<times> UndoBufferRecord list \<times> int \<times> int \<times> UndoBufferRecord"

definition removed_shift :: "caret option \<Rightarrow> nat \<Rightarrow> int \<Rightarrow> caret option" where
  "removed_shift rng tgt childIndex =
     (case rng of
        None \<Rightarrow> None
      | Some c \<Rightarrow>
          (let c1 = (if startContainer c = tgt \<and> childIndex < startOffset c
                     then c\<lparr>startOffset := startOffset c - 1\<rparr> else c);
               c2 = (if endContainer c1 = tgt \<and> childIndex < endOffset c1
                     then c1\<lparr>endOffset := endOffset c1 - 1\<rparr> else c1)
           in Some c2))"

definition expandChildNodesAndInsertOperation ::
  "world \<Rightarrow> caret option \<Rightarrow> UndoBufferRecord list \<Rightarrow> nat \<Rightarrow> nat \<Rightarrow> (error + nstate) option" where
  "expandChildNodesAndInsertOperation w rng rs i j =
     (let r = rs ! i; node = addedNodes r ! j;
          ref = node_nextSibling w node;
          childIndex = getChildIndex w node
      in case cancelInsertOperation rs i j of
           (rs1, i1, j1, r1) \<Rightarrow>
             (case removeChild w (target r) node of
                Inl e \<Rightarrow> Some (Inl e)
              | Inr w1 \<Rightarrow>
                  (let rng1 = removed_shift rng (target r) childIndex
                   in if childNodes (nodes w1 node) \<noteq> [] then
                        (case replaceOperation rs1 node (target r)
                                (Some (last (childNodes (nodes w1 node))))
                                (Some (hd (childNodes (nodes w1 node))))
                                (i1 + 1) (int (length rs1)) of
                           Inl e \<Rightarrow> Some (Inl e)
                         | Inr rs2 \<Rightarrow>
                             (case moveNodeList w1 rng1 (ChildNodes node) (target r) ref of
                                None \<Rightarrow> None
                              | Some (Inl e) \<Rightarrow> Some (Inl e)
                              | Some (Inr (w2, rng2)) \<Rightarrow>
                                  Some (Inr (w2, rng2, rs2, i1, j1, r1))))
                      else Some (Inr (w1, rng1, rs1, i1, j1, r1)))))"

definition moveNodeAndInsertOperation ::
  "world \<Rightarrow> caret option \<Rightarrow> UndoBufferRecord list \<Rightarrow> nat \<Rightarrow> nat \<Rightarrow> nat
     \<Rightarrow> (error + nstate) option" where
  "moveNodeAndInsertOperation w rng rs i j tgt =
     (let r = rs ! i; node = addedNodes r ! j;
          prv = node_previousSibling w node;
          nxt = node_nextSibling w node
      in case cancelInsertOperation rs i j of
           (rs1, i1, j1, r1) \<Rightarrow>
             (case replaceOperation rs1 node (target r) prv nxt (i1 + 1) (int (length rs1)) of
                Inl e \<Rightarrow> Some (Inl e)
              | Inr rs2 \<Rightarrow>
                  (case moveNodeList w rng (NodeArray [node]) tgt None of
                     None \<Rightarrow> None
                   | Some (Inl e) \<Rightarrow> Some (Inl e)
                   | Some (Inr (w1, rng1)) \<Rightarrow>
                       Some (Inr (w1, rng1,
                                  insertInsertOperation w1 rs2 tgt [node] (length rs2),
                                  i1, j1, r1)))))"

definition insertParentNodeAndInsertOperation ::
  "world \<Rightarrow> caret option \<Rightarrow> UndoBufferRecord list \<Rightarrow> nat \<Rightarrow> nat \<Rightarrow> nat
     \<Rightarrow> (error + nstate) option" where
  "insertParentNodeAndInsertOperation w rng rs i j parent =
     (let node = addedNodes (rs ! i) ! j
      in case replaceNodeAndInsertOperation w rs i j parent of
           Inl e \<Rightarrow> Some (Inl e)
         | Inr (w1, rs1) \<Rightarrow>
             (case parentNode (nodes w1 parent) of
                None \<Rightarrow> Some (Inl TypeError)
              | Some pp \<Rightarrow>
                  (case insertBefore w1 pp node (Some parent) of
                     Inl e \<Rightarrow> Some (Inl e)
                   | Inr w2 \<Rightarrow>
                       (case moveNodeList w2 rng (NodeArray [node]) parent None of
                          None \<Rightarrow> None
                        | Some (Inl e) \<Rightarrow> Some (Inl e)
                        | Some (Inr (w3, rng1)) \<Rightarrow>
                            (let rs2 = insertInsertOperation w3 rs1 parent [node] (Suc i)
                             in Some (Inr (w3, rng1, rs2, int i, int j, rs2 ! i)))))))"

text \<open>
  The walk \<open>while (parent !== root)\<close> of the last rule: whether a paragraph is met
  before the root. Reading \<open>nodeType\<close> of \<open>null\<close> throws.
\<close>

partial_function (option) paragraph_above :: "world \<Rightarrow> nat \<Rightarrow> nat option \<Rightarrow> (error + bool) option" where
  "paragraph_above w root parent =
     (case parent of
        None \<Rightarrow> Some (Inl TypeError)
      | Some p \<Rightarrow>
          if p = root then Some (Inr False)
          else if nodeType (nodes w p) = ELEMENT_NODE \<and> tag (nodes w p) = ''p'' then Some (Inr True)
          else paragraph_above w root (parentNode (nodes w p)))"

definition is_element :: "world \<Rightarrow> nat \<Rightarrow> string \<Rightarrow> bool" where
  "is_element w n t = (nodeType (nodes w n) = ELEMENT_NODE \<and> tag (nodes w n) = t)"

text \<open>
  The body of the inner loop of \<open>normalize\<close> for the added node \<open>j\<close> of the record
  \<open>i\<close>: the chain of rules.
\<close>

definition normalize_node :: "nat \<Rightarrow> world \<Rightarrow> caret option \<Rightarrow> UndoBufferRecord list \<Rightarrow> nat \<Rightarrow> nat
     \<Rightarrow> UndoBufferRecord \<Rightarrow> (error + nstate) option" where
  "normalize_node root w rng rs i j r =
     (let node = addedNodes r ! j;
          same = Some (Inr (w, rng, rs, int i, int j, r))
      in if parentNode (nodes w node) = Some (target r) then
           (if nodeType (nodes w node) = TEXT_NODE \<and> target r = root then
              (case createElement w ''p'' of
                 (p, w') \<Rightarrow> insertParentNodeAndInsertOperation w' rng rs i j p)
            else if list_ex (\<lambda>c. nodeType (nodes w c) = TEXT_NODE) (childNodes (nodes w node)) then
              (if (nodeType (nodes w node) \<noteq> ELEMENT_NODE \<or> tag (nodes w node) = ''div'')
                    \<and> target r = root then
                 (case createElement w ''p'' of
                    (p, w') \<Rightarrow>
                      (case replaceNodeAndInsertOperation w' rs i j p of
                         Inl e \<Rightarrow> Some (Inl e)
                       | Inr (w1, rs1) \<Rightarrow>
                           (case moveNodeList w1 rng (ChildNodes node) p None of
                              None \<Rightarrow> None
                            | Some (Inl e) \<Rightarrow> Some (Inl e)
                            | Some (Inr (w2, rng1)) \<Rightarrow>
                                Some (Inr (w2, rng1, rs1, int i, int j, rs1 ! i)))))
               else same)
            else if length (childNodes (nodes w node)) = 1
                    \<and> is_element w (childNodes (nodes w node) ! 0) ''br'' then
              (if (nodeType (nodes w node) \<noteq> ELEMENT_NODE \<or> tag (nodes w node) \<noteq> ''p'')
                    \<and> target r = root then
                 expandChildNodesAndInsertOperation w rng rs i j
               else same)
            else if is_element w node ''br'' \<and> target r = root then
              (case node_previousSibling w node of
                 None \<Rightarrow>
                   (case createElement w ''p'' of
                      (p, w') \<Rightarrow> insertParentNodeAndInsertOperation w' rng rs i j p)
               | Some s \<Rightarrow>
                   if \<not> is_element w s ''p'' then
                     (case createElement w ''p'' of
                        (p, w') \<Rightarrow> insertParentNodeAndInsertOperation w' rng rs i j p)
                   else moveNodeAndInsertOperation w rng rs i j s)
            else if is_element w node ''br'' then
              (case node_previousSibling w node of
                 None \<Rightarrow> same
               | Some s \<Rightarrow>
                   if \<not> is_element w s ''br'' \<and> node_nextSibling w node = None then
                     (case createElement w ''br'' of
                        (br, w') \<Rightarrow>
                          (case moveNodeList w' rng (NodeArray [br]) (target r) (Some node) of
                             None \<Rightarrow> None
                           | Some (Inl e) \<Rightarrow> Some (Inl e)
                           | Some (Inr (w1, rng1)) \<Rightarrow>
                               Some (Inr (w1, rng1,
                                          insertInsertOperation w1 rs (target r) [br] (length rs),
                                          int i, int j, r))))
                   else same)
            else if is_element w node ''p'' then
              (case paragraph_above w root (parentNode (nodes w node)) of
                 None \<Rightarrow> None
               | Some (Inl e) \<Rightarrow> Some (Inl e)
               | Some (Inr True) \<Rightarrow> expandChildNodesAndInsertOperation w rng rs i j
               | Some (Inr False) \<Rightarrow> same)
            else same)
         else same)"

text \<open>
  The loops \<open>for (let j = 0; j != op.addedNodes.length; ++j)\<close> and
  \<open>for (let i = 0; i != records.length; ++i)\<close>. An index that misses the array reads
  \<open>undefined\<close>, whose property access throws.
\<close>

partial_function (option) normalize_added :: "nat \<Rightarrow> nstate \<Rightarrow> (error + nstate) option" where
  "normalize_added root st =
     (case st of
        (w, rng, rs, i, j, r) \<Rightarrow>
          if j = int (length (addedNodes r)) then Some (Inr st)
          else if j < 0 \<or> int (length (addedNodes r)) < j \<or> i < 0 then Some (Inl TypeError)
          else
            (case normalize_node root w rng rs (nat i) (nat j) r of
               None \<Rightarrow> None
             | Some (Inl e) \<Rightarrow> Some (Inl e)
             | Some (Inr (w', rng', rs', i', j', r')) \<Rightarrow>
                 normalize_added root (w', rng', rs', i', j' + 1, r')))"

partial_function (option) normalize_records ::
  "nat \<Rightarrow> world \<Rightarrow> caret option \<Rightarrow> UndoBufferRecord list \<Rightarrow> int
     \<Rightarrow> (error + world \<times> caret option \<times> UndoBufferRecord list) option" where
  "normalize_records root w rng rs i =
     (if i = int (length rs) then Some (Inr (w, rng, rs))
      else if i < 0 \<or> int (length rs) < i then Some (Inl TypeError)
      else if rtype (rs ! nat i) = ChildList then
        (case normalize_added root (w, rng, rs, i, 0, rs ! nat i) of
           None \<Rightarrow> None
         | Some (Inl e) \<Rightarrow> Some (Inl e)
         | Some (Inr (w', rng', rs', i', j', r')) \<Rightarrow>
             normalize_records root w' rng' rs' (i' + 1))
      else normalize_records root w rng rs (i + 1))"

text \<open>\<open>normalize(root, records)\<close>.\<close>

definition normalize :: "nat \<Rightarrow> world \<Rightarrow> UndoBufferRecord list
     \<Rightarrow> (error + world \<times> UndoBufferRecord list) option" where
  "normalize root w rs =
     (case normalize_records root w (getCaret w) rs 0 of
        None \<Rightarrow> None
      | Some (Inl e) \<Rightarrow> Some (Inl e)
      | Some (Inr (w', rng, rs')) \<Rightarrow>
          (case updateCaret w' rng of
             Inl e \<Rightarrow> Some (Inl e)
           | Inr w'' \<Rightarrow> Some (Inr (w'', rs'))))"

text \<open>
  The constructor: an empty ring buffer, \<open>#range = new Range()\<close> (both boundary points
  at the document node, offset 0), the main observer connected. The capacity is an
  integer-valued double.
\<close>

definition UndoBuffer_new :: "nat \<Rightarrow> nat \<Rightarrow> int \<Rightarrow> UndoBuffer" where
  "UndoBuffer_new doc tgt cap =
     \<lparr>editTarget = tgt, bufferSize = cap, offset = 0, pos = 0, endPos = 0, buffer = [],
      arrays = (\<lambda>a. []), nextArray = 0,
      caretRange = \<lparr>startContainer = doc, startOffset = 0, endContainer = doc, endOffset = 0\<rparr>,
      tempBuffer = [], observing = True, tempObserving = False, caretListening = True,
      frozenValue = Some []\<rparr>"

section \<open>The capture controller\<close>

text \<open>
  The host's edits of the tree and the mutation records it queues for them, after the
  DOM standard: an insertion (which first takes the node out of its old parent), a
  removal, the removal of all children in one step (\<open>replaceChildren()\<close>,
  \<open>textContent = ''\<close>), a change of character data, and a change of the selection,
  which queues no record.
\<close>

datatype mutation =
  MInsert nat nat "nat option"
| MRemove nat nat
| MClear nat
| MSetText nat string
| MSelect "caret option"

definition plain_record :: "record_type \<Rightarrow> nat \<Rightarrow> UndoBufferRecord" where
  "plain_record k tgt =
     \<lparr>rtype = k, target = tgt, addedNodes = [], removedNodes = [],
      previousSibling = None, nextSibling = None,
      attributeName = None, attributeNamespace = None, oldValue = None, newValue = None\<rparr>"

definition host_apply :: "world \<Rightarrow> mutation \<Rightarrow> error + world \<times> UndoBufferRecord list" where
  "host_apply w m =
     (case m of
        MInsert p n r \<Rightarrow>
          (case insertBefore w p n r of
             Inl e \<Rightarrow> Inl e
           | Inr w' \<Rightarrow>
               Inr (w',
                    (case parentNode (nodes w n) of
                       None \<Rightarrow> []
                     | Some q \<Rightarrow>
                         [(plain_record ChildList q)
                            \<lparr>removedNodes := [n],
                             previousSibling := node_previousSibling w n,
                             nextSibling := node_nextSibling w n\<rparr>])
                    @ [(plain_record ChildList p)
                         \<lparr>addedNodes := [n],
                          previousSibling := node_previousSibling w' n,
                          nextSibling := node_nextSibling w' n\<rparr>]))
      | MRemove p n \<Rightarrow>
          (case removeChild w p n of
             Inl e \<Rightarrow> Inl e
           | Inr w' \<Rightarrow>
               Inr (w', [(plain_record ChildList p)
                          \<lparr>removedNodes := [n],
                           previousSibling := node_previousSibling w n,
                           nextSibling := node_nextSibling w n\<rparr>]))
      | MClear p \<Rightarrow>
          (case forEachE (\<lambda>n v. removeChild v p n) (childNodes (nodes w p)) w of
             Inl e \<Rightarrow> Inl e
           | Inr w' \<Rightarrow>
               Inr (w', if childNodes (nodes w p) = [] then []
                        else [(plain_record ChildList p)\<lparr>removedNodes := childNodes (nodes w p)\<rparr>]))
      | MSetText n v \<Rightarrow>
          (if nodeType (nodes w n) \<in> {TEXT_NODE, CDATA_SECTION_NODE, COMMENT_NODE}
           then Inr (set_nodeValue w n (Some v),
                     [(plain_record CharacterData n)
                        \<lparr>oldValue := nodeValue (nodes w n)\<rparr>])
           else Inr (w, []))
      | MSelect c \<Rightarrow> Inr (w\<lparr>selection := c\<rparr>, []))"





text \<open>
  Both observers are registered on the edit target with \<open>subtree: true\<close>. A record is
  queued for an observer when it is registered on an inclusive ancestor of the record's
  target. When a node is removed from a parent that an observer reaches, the host
  registers the observer on the removed node as well (a transient registration), up to
  the next delivery. \<open>regs\<close> lists the nodes that carry a registration: the edit target
  and the nodes removed since the last delivery.
\<close>

definition observed :: "world \<Rightarrow> nat list \<Rightarrow> nat \<Rightarrow> bool" where
  "observed w regs t = list_ex (\<lambda>a. inclusive_ancestor w a t) regs"

definition deliverable :: "world \<Rightarrow> nat list \<Rightarrow> UndoBufferRecord list \<Rightarrow> UndoBufferRecord list" where
  "deliverable w regs rs = filter (\<lambda>r. observed w regs (target r)) rs"

text \<open>
  One task of the host: its edits, and the records queued for an observer of the edit
  target, which are delivered together when the task has ended.
\<close>

fun task_run ::
  "nat list \<Rightarrow> world \<Rightarrow> mutation list \<Rightarrow> error + world \<times> UndoBufferRecord list" where
  "task_run regs w [] = Inr (w, [])"
| "task_run regs w (m # ms) =
     (case host_apply w m of
        Inl e \<Rightarrow> Inl e
      | Inr (w', rs) \<Rightarrow>
          (case task_run (regs @ concat (map removedNodes (deliverable w regs rs))) w' ms of
             Inl e \<Rightarrow> Inl e
           | Inr (w'', rs') \<Rightarrow> Inr (w'', deliverable w regs rs @ rs')))"

text \<open>\<open>[...this.#tempBuffer, record]\<close> and \<open>records.map(...)\<close>: a new array on the heap.\<close>

definition new_array :: "UndoBuffer \<Rightarrow> UndoBufferRecord list \<Rightarrow> nat \<times> UndoBuffer" where
  "new_array ub rs =
     (nextArray ub, ub\<lparr>arrays := (arrays ub)(nextArray ub := rs), nextArray := Suc (nextArray ub)\<rparr>)"

text \<open>
  The callback of \<open>#observer\<close>: disconnect, normalize the new array of records, push it
  as a new batch, observe again. The callback of \<open>#tempObserver\<close>, which is told of
  child list changes only, appends to \<open>#tempBuffer\<close>.
\<close>

definition observer_callback ::
  "UndoBuffer \<times> world \<Rightarrow> UndoBufferRecord list \<Rightarrow> (error + UndoBuffer \<times> world) option" where
  "observer_callback s rs =
     (case normalize (editTarget (fst s)) (snd s) rs of
        None \<Rightarrow> None
      | Some (Inl e) \<Rightarrow> Some (Inl e)
      | Some (Inr (w', rs')) \<Rightarrow>
          (case new_array ((fst s)\<lparr>observing := False\<rparr>) rs' of
             (a, ub1) \<Rightarrow>
               (case push w' ub1 a False of
                  Inl e \<Rightarrow> Some (Inl e)
                | Inr ub' \<Rightarrow> Some (Inr (ub'\<lparr>observing := True\<rparr>, w')))))"

definition tempObserver_callback :: "UndoBuffer \<Rightarrow> UndoBufferRecord list \<Rightarrow> UndoBuffer" where
  "tempObserver_callback ub rs = ub\<lparr>tempBuffer := tempBuffer ub @ rs\<rparr>"

text \<open>
  A task of the host followed by the delivery of its records to the connected
  observers; \<open>host_edit\<close> is a task of one edit, \<open>host_tasks\<close> a sequence of tasks.
\<close>

definition host_task ::
  "UndoBuffer \<times> world \<Rightarrow> mutation list \<Rightarrow> (error + UndoBuffer \<times> world) option" where
  "host_task s ms =
     (case task_run [editTarget (fst s)] (snd s) ms of
        Inl e \<Rightarrow> Some (Inl e)
      | Inr (w', rs) \<Rightarrow>
          (let ub1 = (if tempObserving (fst s) \<and> filter (\<lambda>r. rtype r = ChildList) rs \<noteq> []
                      then tempObserver_callback (fst s) (filter (\<lambda>r. rtype r = ChildList) rs)
                      else fst s)
           in if observing ub1 \<and> rs \<noteq> [] then observer_callback (ub1, w') rs
              else Some (Inr (ub1, w'))))"

definition host_edit ::
  "UndoBuffer \<times> world \<Rightarrow> mutation \<Rightarrow> (error + UndoBuffer \<times> world) option" where
  "host_edit s m = host_task s [m]"

fun host_tasks ::
  "UndoBuffer \<times> world \<Rightarrow> mutation list list \<Rightarrow> (error + UndoBuffer \<times> world) option" where
  "host_tasks s [] = Some (Inr s)"
| "host_tasks s (t # ts) =
     (case host_task s t of
        None \<Rightarrow> None
      | Some (Inl e) \<Rightarrow> Some (Inl e)
      | Some (Inr s') \<Rightarrow> host_tasks s' ts)"

text \<open>The listener \<open>observeCaretEvent\<close> and the two composition handlers.\<close>

definition observeCaretEvent :: "UndoBuffer \<times> world \<Rightarrow> UndoBuffer \<times> world" where
  "observeCaretEvent s =
     ((fst s)\<lparr>caretRange := (case getCaret (snd s) of Some c \<Rightarrow> c | None \<Rightarrow> caretRange (fst s))\<rparr>,
      snd s)"

definition on_beforeinput :: "UndoBuffer \<times> world \<Rightarrow> UndoBuffer \<times> world" where
  "on_beforeinput s = (if caretListening (fst s) then observeCaretEvent s else s)"

definition on_compositionstart :: "UndoBuffer \<times> world \<Rightarrow> UndoBuffer \<times> world" where
  "on_compositionstart s =
     (let s1 = observeCaretEvent s;
          textNode = startContainer (caretRange (fst s1))
      in ((fst s1)\<lparr>caretListening := False, observing := False, tempBuffer := [],
                     tempObserving := True,
                     frozenValue := nodeValue (nodes (snd s1) textNode)\<rparr>, snd s1))"

definition composed_record :: "UndoBuffer \<times> world \<Rightarrow> UndoBufferRecord" where
  "composed_record s =
     (let textNode = startContainer (caretRange (fst s))
      in (plain_record CharacterData textNode)
           \<lparr>previousSibling := node_previousSibling (snd s) textNode,
            nextSibling := node_nextSibling (snd s) textNode,
            oldValue := frozenValue (fst s)\<rparr>)"

text \<open>
  \<open>compositionend\<close> with the committed text \<open>d\<close>. On an empty text the handler only
  queues the microtask, which is \<open>composition_rollback\<close>.
\<close>

definition on_compositionend ::
  "UndoBuffer \<times> world \<Rightarrow> string \<Rightarrow> (error + UndoBuffer \<times> world) option" where
  "on_compositionend s d =
     (let ub1 = (fst s)\<lparr>caretListening := True\<rparr>
      in if d \<noteq> [] then
           (let ub2 = ub1\<lparr>tempObserving := False\<rparr>
            in case normalize (editTarget ub2) (snd s)
                      (tempBuffer ub2 @ [composed_record (ub2, snd s)]) of
                 None \<Rightarrow> None
               | Some (Inl e) \<Rightarrow> Some (Inl e)
               | Some (Inr (w', rs')) \<Rightarrow>
                   (case new_array ub2 rs' of
                      (a, ub3) \<Rightarrow>
                        (case push w' ub3 a False of
                           Inl e \<Rightarrow> Some (Inl e)
                         | Inr ub4 \<Rightarrow> Some (Inr (ub4\<lparr>observing := True\<rparr>, w')))))
         else Some (Inr (ub1, snd s)))"

definition composition_rollback :: "UndoBuffer \<times> world \<Rightarrow> error + UndoBuffer \<times> world" where
  "composition_rollback s =
     (case undo_records (snd s) (tempBuffer (fst s)) of
        Inl e \<Rightarrow> Inl e
      | Inr (w', rs) \<Rightarrow>
          Inr ((fst s)\<lparr>tempObserving := False, tempBuffer := rs, observing := True\<rparr>, w'))"

text \<open>
  A composition session: the start, the host's tasks while it is open, the end with the
  committed text, and the rollback when that text is empty. The records of the last
  task have been delivered when \<open>compositionend\<close> is handled.
\<close>

definition composition_session ::
  "UndoBuffer \<times> world \<Rightarrow> mutation list list \<Rightarrow> string \<Rightarrow> (error + UndoBuffer \<times> world) option" where
  "composition_session s ts d =
     (case host_tasks (on_compositionstart s) ts of
        None \<Rightarrow> None
      | Some (Inl e) \<Rightarrow> Some (Inl e)
      | Some (Inr s1) \<Rightarrow>
          (case on_compositionend s1 d of
             None \<Rightarrow> None
           | Some (Inl e) \<Rightarrow> Some (Inl e)
           | Some (Inr s2) \<Rightarrow> if d = [] then Some (composition_rollback s2) else Some (Inr s2)))"



text \<open>
  \<open>revalue v w\<close>: the tree of \<open>w\<close> (node kinds, tags, attributes, child lists and
  parents) with the character data and the selection of \<open>v\<close>.
\<close>

definition revalue :: "world \<Rightarrow> world \<Rightarrow> world" where
  "revalue v w =
     \<lparr>nodes = (\<lambda>n. (nodes w n)\<lparr>nodeValue := nodeValue (nodes v n)\<rparr>), fresh = fresh w,
      selection = selection v\<rparr>"

section \<open>States of the ring buffer\<close>

text \<open>
  The states an \<open>UndoBuffer\<close> object takes: the constructor's, and those that
  \<open>push\<close>, \<open>undo\<close> and \<open>redo\<close> return; the controller may change its own fields
  in between, and the callers may allocate and change record arrays.
\<close>

inductive reachable :: "UndoBuffer \<Rightarrow> bool" where
  reach_new: "reachable (UndoBuffer_new doc tgt c)"
| reach_push: "reachable ub \<Longrightarrow> push w ub rs m = Inr ub' \<Longrightarrow> reachable ub'"
| reach_undo: "reachable ub \<Longrightarrow> undo (ub, w) = Inr (ub', w') \<Longrightarrow> reachable ub'"
| reach_redo: "reachable ub \<Longrightarrow> redo (ub, w) = Inr (ub', w') \<Longrightarrow> reachable ub'"
| reach_controller:
    "reachable ub \<Longrightarrow>
     reachable (ub\<lparr>caretRange := c, tempBuffer := t, observing := a, tempObserving := b,
                  caretListening := l, frozenValue := v, arrays := h, nextArray := k\<rparr>)"

definition is_piece :: "slot \<Rightarrow> bool" where
  "is_piece s = (case s of Piece _ \<Rightarrow> True | _ \<Rightarrow> False)"

text \<open>
  The invariant of those states: the indices lie in the array, the array is no longer
  than the capacity, and every slot that the validity test accepts holds a batch.
\<close>

definition ring_inv :: "UndoBuffer \<Rightarrow> bool" where
  "ring_inv ub =
     (if bufferSize ub \<le> 0 then offset ub = 0 \<and> pos ub = 0 \<and> endPos ub = 0 \<and> buffer ub = []
      else 0 \<le> offset ub \<and> offset ub < bufferSize ub
         \<and> 0 \<le> pos ub \<and> pos ub < bufferSize ub
         \<and> 0 \<le> endPos ub \<and> endPos ub < bufferSize ub
         \<and> int (length (buffer ub)) \<le> bufferSize ub
         \<and> pos ub \<le> int (length (buffer ub))
         \<and> (offset ub \<noteq> 0 \<longrightarrow> int (length (buffer ub)) = bufferSize ub)
         \<and> (pos ub = endPos ub \<or> existBuffer ub (Some (pos ub)))
         \<and> (\<forall>i. existBuffer ub (Some i) \<longrightarrow> i < int (length (buffer ub)) \<and> is_piece (slot_at (buffer ub) i)))"

text \<open>The indices and the array after \<open>push\<close> has written a new batch.\<close>

definition next_index :: "int \<Rightarrow> int \<Rightarrow> int" where
  "next_index c p = (if p + 1 = c then 0 else p + 1)"

definition written :: "world \<Rightarrow> UndoBuffer \<Rightarrow> nat \<Rightarrow> slot list" where
  "written w ub rs =
     (if pos ub < int (length (buffer ub))
      then (buffer ub)[nat (pos ub) := Piece \<lparr>records = rs, oldRange = caretRange ub, newRange = getCaret w\<rparr>]
      else buffer ub @ [Piece \<lparr>records = rs, oldRange = caretRange ub, newRange = getCaret w\<rparr>])"

definition push_pos :: "UndoBuffer \<Rightarrow> int" where
  "push_pos ub = next_index (bufferSize ub) (pos ub)"

definition push_offset :: "UndoBuffer \<Rightarrow> int" where
  "push_offset ub =
     (if push_pos ub = offset ub then next_index (bufferSize ub) (offset ub) else offset ub)"

text \<open>
  The batches available for redo: \<open>redo\<close> replays the slot \<open>#pos\<close> and moves on by
  one, so they are the valid slots from \<open>#pos\<close> up to \<open>#endPos\<close>, around the ring.
\<close>

definition redoable :: "UndoBuffer \<Rightarrow> int \<Rightarrow> bool" where
  "redoable ub j =
     (existBuffer ub (Some j) \<and>
      (if pos ub \<le> endPos ub then pos ub \<le> j \<and> j < endPos ub
       else pos ub \<le> j \<or> j < endPos ub))"



section \<open>Batches that normalization leaves alone\<close>

text \<open>
  A caret whose offsets lie within its nodes, which \<open>updateCaret\<close> accepts.
\<close>

definition caret_ok :: "world \<Rightarrow> caret \<Rightarrow> bool" where
  "caret_ok w c =
     (0 \<le> startOffset c \<and> startOffset c \<le> node_length w (startContainer c)
      \<and> 0 \<le> endOffset c \<and> endOffset c \<le> node_length w (endContainer c))"

text \<open>
  The conditions of the chain of rules in \<open>normalize\<close>, read off its tests: the added
  node \<open>node\<close> of a record with the target \<open>tgt\<close> is rewritten when it is still a
  child of the target and is a text node under the root; or has a text child, is no
  element or a \<open>div\<close>, and lies under the root; or has a line break as its only child,
  is no paragraph, and lies under the root; or is a line break under the root; or is a
  line break below the root that has a previous sibling other than a line break and no
  next sibling; or is a paragraph and the walk from its parent up to the root meets a
  paragraph. \<open>enclosing_paragraph w root n\<close>: the walk from \<open>n\<close> upwards meets a
  paragraph before it meets the root.
\<close>

inductive enclosing_paragraph :: "world \<Rightarrow> nat \<Rightarrow> nat \<Rightarrow> bool" for w :: world and root :: nat where
  ep_here: "n \<noteq> root \<Longrightarrow> is_element w n ''p'' \<Longrightarrow> enclosing_paragraph w root n"
| ep_above:
    "n \<noteq> root \<Longrightarrow> parentNode (nodes w n) = Some q \<Longrightarrow> enclosing_paragraph w root q \<Longrightarrow>
     enclosing_paragraph w root n"

definition rule_applies :: "nat \<Rightarrow> world \<Rightarrow> nat \<Rightarrow> nat \<Rightarrow> bool" where
  "rule_applies root w tgt node =
     (parentNode (nodes w node) = Some tgt \<and>
      (if nodeType (nodes w node) = TEXT_NODE \<and> tgt = root then True
       else if list_ex (\<lambda>c. nodeType (nodes w c) = TEXT_NODE) (childNodes (nodes w node)) then
         (nodeType (nodes w node) \<noteq> ELEMENT_NODE \<or> tag (nodes w node) = ''div'') \<and> tgt = root
       else if length (childNodes (nodes w node)) = 1
               \<and> is_element w (childNodes (nodes w node) ! 0) ''br'' then
         (nodeType (nodes w node) \<noteq> ELEMENT_NODE \<or> tag (nodes w node) \<noteq> ''p'') \<and> tgt = root
       else if is_element w node ''br'' \<and> tgt = root then True
       else if is_element w node ''br'' then
         (case node_previousSibling w node of
            None \<Rightarrow> False
          | Some s \<Rightarrow> \<not> is_element w s ''br'' \<and> node_nextSibling w node = None)
       else if is_element w node ''p'' then enclosing_paragraph w root tgt
       else False))"

text \<open>
  A batch to which no rule applies: every child list record has its target in the
  subtree of the root, as the records that the observer delivers have, and no rule
  applies to any of its added nodes.
\<close>

definition no_rule :: "nat \<Rightarrow> world \<Rightarrow> UndoBufferRecord list \<Rightarrow> bool" where
  "no_rule root w rs =
     list_all (\<lambda>r. rtype r \<noteq> ChildList
                   \<or> inclusive_ancestor w root (target r)
                      \<and> list_all (\<lambda>n. \<not> rule_applies root w (target r) n) (addedNodes r)) rs"

section \<open>Example documents\<close>

definition elem :: "string \<Rightarrow> nat list \<Rightarrow> nat option \<Rightarrow> dnode" where
  "elem t cs p =
     \<lparr>nodeType = ELEMENT_NODE, tag = t, htmlElement = True, nodeValue = None, attrs = [],
      childNodes = cs, parentNode = p\<rparr>"

definition textnode :: "string \<Rightarrow> nat option \<Rightarrow> dnode" where
  "textnode v p =
     \<lparr>nodeType = TEXT_NODE, tag = [], htmlElement = False, nodeValue = Some v, attrs = [],
      childNodes = [], parentNode = p\<rparr>"

definition docnode :: "nat list \<Rightarrow> dnode" where
  "docnode cs =
     \<lparr>nodeType = DOCUMENT_NODE, tag = [], htmlElement = False, nodeValue = None, attrs = [],
      childNodes = cs, parentNode = None\<rparr>"

definition heap_of :: "dnode list \<Rightarrow> caret option \<Rightarrow> world" where
  "heap_of ns sel =
     \<lparr>nodes = (\<lambda>n. if n < length ns then ns ! n else docnode []), fresh = length ns,
      selection = sel\<rparr>"


text \<open>The nodes of a heap as a list, for comparing two heaps node by node.\<close>

definition heap_list :: "world \<Rightarrow> dnode list" where
  "heap_list w = map (nodes w) [0..<fresh w]"

definition caret_at :: "nat \<Rightarrow> int \<Rightarrow> caret" where
  "caret_at n k = \<lparr>startContainer = n, startOffset = k, endContainer = n, endOffset = k\<rparr>"

definition inserted :: "nat \<Rightarrow> nat list \<Rightarrow> nat option \<Rightarrow> nat option \<Rightarrow> UndoBufferRecord" where
  "inserted t ns p n =
     (plain_record ChildList t)\<lparr>addedNodes := ns, previousSibling := p, nextSibling := n\<rparr>"

text \<open>
  The results of operations that succeed, for building example states; \<open>after_push\<close>
  pushes a new array that holds the given records.
\<close>

definition after_push :: "world \<Rightarrow> UndoBuffer \<Rightarrow> UndoBufferRecord list \<Rightarrow> UndoBuffer" where
  "after_push w ub rs =
     (case new_array ub rs of
        (a, ub1) \<Rightarrow> (case push w ub1 a False of Inr ub' \<Rightarrow> ub' | Inl e \<Rightarrow> ub1))"

definition after_undo :: "UndoBuffer \<times> world \<Rightarrow> UndoBuffer \<times> world" where
  "after_undo s = (case undo s of Inr s' \<Rightarrow> s' | Inl e \<Rightarrow> s)"

definition w_plain :: world where
  "w_plain =
     heap_of [docnode [1], elem ''body'' [2] (Some 0), elem ''div'' [] (Some 1)]
       (Some (caret_at 2 0))"

text \<open>
  Documents whose root is the element 2: the root with two empty paragraphs; with the
  text node 3; with the paragraph 3 that holds the line break 4; with the paragraph 3
  that holds the text 4 and the line break 5; with the paragraph 3 that holds the
  paragraph 4 with the text 5; with the paragraph 3 that holds the paragraph 4 (with
  two children) and the element 7.
\<close>

definition w_two_paragraphs :: world where
  "w_two_paragraphs =
     heap_of [docnode [1], elem ''body'' [2] (Some 0), elem ''div'' [3, 4] (Some 1),
              elem ''p'' [] (Some 2), elem ''p'' [] (Some 2)]
       (Some (caret_at 2 0))"


definition w_lone_break :: world where
  "w_lone_break =
     heap_of [docnode [1], elem ''body'' [2] (Some 0), elem ''div'' [3] (Some 1),
              elem ''p'' [4] (Some 2), elem ''br'' [] (Some 3)]
       (Some (caret_at 3 1))"

definition w_text_break :: world where
  "w_text_break =
     heap_of [docnode [1], elem ''body'' [2] (Some 0), elem ''div'' [3] (Some 1),
              elem ''p'' [4, 5] (Some 2), textnode ''ab'' (Some 3), elem ''br'' [] (Some 3)]
       (Some (caret_at 3 2))"

definition w_nested_text :: world where
  "w_nested_text =
     heap_of [docnode [1], elem ''body'' [2] (Some 0), elem ''div'' [3] (Some 1),
              elem ''p'' [4] (Some 2), elem ''p'' [5] (Some 3), textnode ''ab'' (Some 4)]
       (Some (caret_at 5 2))"

definition w_nested_spans :: world where
  "w_nested_spans =
     heap_of [docnode [1], elem ''body'' [2] (Some 0), elem ''div'' [3] (Some 1),
              elem ''p'' [4, 7] (Some 2), elem ''p'' [5, 6] (Some 3),
              elem ''span'' [] (Some 4), elem ''span'' [] (Some 4), elem ''span'' [] (Some 3)]
       (Some (caret_at 3 1))"



text \<open>
  The root 2 without children, and the element 3 that has left the tree with the
  paragraph 4 as its child.
\<close>

definition w_detached_div :: world where
  "w_detached_div =
     heap_of [docnode [1], elem ''body'' [2] (Some 0), elem ''div'' [] (Some 1),
              elem ''div'' [4] None, elem ''p'' [] (Some 3)]
       (Some (caret_at 2 0))"



text \<open>A buffer of capacity 3 after two pushes and one undo.\<close>

definition ring_undone :: UndoBuffer where
  "ring_undone =
     fst (after_undo
            (after_push w_plain (after_push w_plain (UndoBuffer_new 0 2 3) []) [], w_plain))"

declare move_live.simps [code] paragraph_above.simps [code]
declare normalize_added.simps [code] normalize_records.simps [code]

section \<open>Evaluating the ancestor relation\<close>

lemma inclusive_ancestor_unfold [code]:
  "inclusive_ancestor w a n =
     (a = n \<or> (case parentNode (nodes w n) of
                  None \<Rightarrow> False
                | Some q \<Rightarrow> inclusive_ancestor w a q))"
  by (auto intro: inclusive_ancestor.intros elim: inclusive_ancestor.cases split: option.splits)

section \<open>The validity test of the ring buffer\<close>

text \<open>
  C3. For every triple of \<open>offset\<close>, \<open>endPos\<close> and capacity, and every index \<open>i\<close> of
  the ring buffer (\<open>0 \<le> i < bufferSize\<close>): the validity test is false when
  \<open>offset = endPos\<close>; when \<open>offset < endPos\<close> it holds iff \<open>offset \<le> i < endPos\<close>; when
  \<open>offset > endPos\<close> it holds iff \<open>i \<ge> offset\<close> or \<open>i < endPos\<close>.
\<close>

theorem existBuffer_window:
  assumes "0 \<le> i" and "i < bufferSize ub"
  shows "existBuffer ub (Some i) =
           (if offset ub = endPos ub then False
            else if offset ub < endPos ub then offset ub \<le> i \<and> i < endPos ub
            else offset ub \<le> i \<or> i < endPos ub)"
  using assms by (auto simp: existBuffer_def)

theorem existBuffer_window_witness:
  "(0::int) \<le> 0 \<and> 0 < bufferSize ((UndoBuffer_new 0 1 4)\<lparr>offset := 3, endPos := 1\<rparr>)
   \<and> existBuffer ((UndoBuffer_new 0 1 4)\<lparr>offset := 3, endPos := 1\<rparr>) (Some 0)
   \<and> \<not> existBuffer ((UndoBuffer_new 0 1 4)\<lparr>offset := 3, endPos := 1\<rparr>) (Some 2)"
  using existBuffer_window [of 0 "(UndoBuffer_new 0 1 4)\<lparr>offset := 3, endPos := 1\<rparr>"]
    existBuffer_window [of 2 "(UndoBuffer_new 0 1 4)\<lparr>offset := 3, endPos := 1\<rparr>"]
  by (simp add: UndoBuffer_new_def)

section \<open>The invariant of the ring buffer\<close>

lemma js_rem_nonneg: "0 \<le> a \<Longrightarrow> 0 < c \<Longrightarrow> js_rem a c = Some (a mod c)"
  by (cases "a = 0") (simp_all add: js_rem_def)

lemma js_rem_succ: "0 \<le> p \<Longrightarrow> p < c \<Longrightarrow> js_rem (p + 1) c = Some (if p + 1 = c then 0 else p + 1)"
  by (simp add: js_rem_nonneg)

lemma js_rem_pred: "0 \<le> p \<Longrightarrow> p < c \<Longrightarrow> js_rem (p + c - 1) c = Some (if p = 0 then c - 1 else p - 1)"
proof -
  assume a: "0 \<le> p" "p < c"
  have "(p + c - 1) mod c = (if p = 0 then c - 1 else p - 1)"
  proof (cases "p = 0")
    case True
    have "(c - 1) mod c = c - 1" using a True by (intro mod_pos_pos_trivial) auto
    then show ?thesis using True by simp
  next
    case False
    have "(p + c - 1) mod c = ((p - 1) + c) mod c" by (simp add: algebra_simps)
    also have "\<dots> = (p - 1) mod c" by simp
    also have "\<dots> = p - 1" using a False by simp
    finally show ?thesis using False by simp
  qed
  moreover have "js_rem (p + c - 1) c = Some ((p + c - 1) mod c)"
    using a by (intro js_rem_nonneg) auto
  ultimately show ?thesis by simp
qed

lemma bit_length_le: "n < 2 ^ k \<Longrightarrow> bit_length n \<le> k"
proof (induction k arbitrary: n)
  case 0
  then show ?case by (subst bit_length.simps) simp
next
  case (Suc k)
  show ?case
  proof (cases "n \<le> 0")
    case True
    then show ?thesis by (subst bit_length.simps) simp
  next
    case False
    have "n div 2 < 2 ^ k" using Suc.prems by simp
    from Suc.IH [OF this] show ?thesis using False by (subst bit_length.simps) simp
  qed
qed

lemma to_double_exact:
  assumes "\<bar>x\<bar> < 2 ^ 53"
  shows "to_double x = Some x"
proof -
  have b: "bit_length \<bar>x\<bar> \<le> 53" using assms by (rule bit_length_le)
  then have u: "(2::int) ^ (bit_length \<bar>x\<bar> - 53) = 1" by simp
  have "\<bar>x\<bar> < 2 ^ 1024"
    using assms by (rule less_le_trans) (simp add: power_increasing)
  then have "bit_length \<bar>x\<bar> \<le> 1024" by (rule bit_length_le)
  then show ?thesis
    unfolding to_double_def Let_def u by (simp add: mult_sgn_abs)
qed

text \<open>Up to a capacity of \<open>2^52\<close> the index of the slot written last is exact.\<close>

lemma lastWritten_exact:
  assumes "0 \<le> pos ub" "pos ub < bufferSize ub" "bufferSize ub \<le> 2 ^ 52"
  shows "lastWritten ub = Some (if pos ub = 0 then bufferSize ub - 1 else pos ub - 1)"
proof -
  have "\<bar>pos ub + bufferSize ub\<bar> < 2 ^ 53" using assms by simp
  then have 1: "js_add (pos ub) (bufferSize ub) = Some (pos ub + bufferSize ub)"
    unfolding js_add_def by (rule to_double_exact)
  have "\<bar>pos ub + bufferSize ub + - 1\<bar> < 2 ^ 53" using assms by simp
  then have 2: "js_add (pos ub + bufferSize ub) (- 1) = Some (pos ub + bufferSize ub + - 1)"
    unfolding js_add_def by (rule to_double_exact)
  show ?thesis
    unfolding lastWritten_def 1 2 option.case using js_rem_pred [OF assms(1,2)] by simp
qed

lemma length_js_set: "i < length b \<Longrightarrow> length (js_set b i v) = length b"
  by (simp add: js_set_def)

lemma length_clear_aux:
  "\<forall>i\<in>set is. i < length b \<Longrightarrow> length (foldl (\<lambda>a i. js_set a i Cleared) b is) = length b"
  by (induction "is" arbitrary: b) (auto simp: length_js_set)

lemma length_clear_slots: "hi \<le> int (length b) \<Longrightarrow> length (clear_slots b lo hi) = length b"
  unfolding clear_slots_def by (rule length_clear_aux) auto

lemma nth_clear_aux:
  "\<forall>i\<in>set is. i < length b \<Longrightarrow> k < length b \<Longrightarrow>
    foldl (\<lambda>a i. js_set a i Cleared) b is ! k = (if k \<in> set is then Cleared else b ! k)"
  by (induction "is" arbitrary: b) (auto simp: js_set_def nth_list_update)

lemma nth_clear_slots:
  "hi \<le> int (length b) \<Longrightarrow> k < length b \<Longrightarrow>
    clear_slots b lo hi ! k = (if nat lo \<le> k \<and> k < nat hi then Cleared else b ! k)"
  unfolding clear_slots_def by (subst nth_clear_aux) auto

lemma slot_at_clear_slots:
  "hi \<le> int (length b) \<Longrightarrow> 0 \<le> lo \<Longrightarrow>
    slot_at (clear_slots b lo hi) k = (if lo \<le> k \<and> k < hi then Cleared else slot_at b k)"
  by (auto simp: slot_at_def length_clear_slots nth_clear_slots)

lemma push_new_unfold:
  assumes "ring_inv ub" "0 < bufferSize ub"
  shows "push_new w ub rs =
     ub\<lparr>buffer := (if push_offset ub < push_pos ub
                    then clear_slots (clear_slots (written w ub rs) (push_pos ub)
                           (int (length (written w ub rs)))) 0 (push_offset ub)
                    else clear_slots (written w ub rs) (push_pos ub) (push_offset ub)),
        pos := push_pos ub, endPos := push_pos ub, offset := push_offset ub\<rparr>"
proof -
  have b: "0 \<le> pos ub" "pos ub < bufferSize ub" "0 \<le> offset ub" "offset ub < bufferSize ub"
    using assms by (simp_all add: ring_inv_def)
  have p: "js_rem (pos ub + 1) (bufferSize ub) = Some (push_pos ub)"
    using js_rem_succ [OF b(1,2)] by (simp add: push_pos_def next_index_def)
  have o: "js_rem (offset ub + 1) (bufferSize ub) = Some (next_index (bufferSize ub) (offset ub))"
    using js_rem_succ [OF b(3,4)] by (simp add: next_index_def)
  have wr: "(if pos ub < int (length (buffer ub))
         then (if 0 \<le> pos ub
               then (buffer ub)[nat (pos ub) := Piece \<lparr>records = rs, oldRange = caretRange ub, newRange = getCaret w\<rparr>]
               else buffer ub)
         else buffer ub @ [Piece \<lparr>records = rs, oldRange = caretRange ub, newRange = getCaret w\<rparr>])
       = written w ub rs"
    using b(1) by (simp add: written_def)
  show ?thesis
    unfolding push_new_def Let_def p o wr option.case
    by (simp only: push_offset_def [symmetric])
qed

lemma length_written:
  "ring_inv ub \<Longrightarrow> 0 < bufferSize ub \<Longrightarrow>
   int (length (written w ub rs)) = max (int (length (buffer ub))) (pos ub + 1)"
  by (auto simp: written_def ring_inv_def)

lemma slot_at_written:
  "ring_inv ub \<Longrightarrow> 0 < bufferSize ub \<Longrightarrow>
   slot_at (written w ub rs) k =
     (if k = pos ub then Piece \<lparr>records = rs, oldRange = caretRange ub, newRange = getCaret w\<rparr>
      else slot_at (buffer ub) k)"
  by (auto simp: written_def ring_inv_def slot_at_def nth_append nth_list_update nat_eq_iff)

lemma push_bounds:
  assumes "ring_inv ub" "0 < bufferSize ub"
  shows "0 \<le> push_pos ub" "push_pos ub < bufferSize ub"
        "0 \<le> push_offset ub" "push_offset ub < bufferSize ub"
        "int (length (written w ub rs)) \<le> bufferSize ub"
        "push_pos ub \<le> int (length (written w ub rs))"
        "push_offset ub \<noteq> 0 \<Longrightarrow> int (length (written w ub rs)) = bufferSize ub"
        "1 < bufferSize ub \<Longrightarrow> push_offset ub \<noteq> push_pos ub"
  using assms
  by (auto simp: length_written push_pos_def push_offset_def next_index_def ring_inv_def
           split: if_splits)

lemma existBuffer_push_new:
  assumes "ring_inv ub" "0 < bufferSize ub"
  shows "existBuffer (push_new w ub rs) (Some k) =
     (if push_offset ub = push_pos ub then False
      else if push_offset ub < push_pos ub then push_offset ub \<le> k \<and> k < push_pos ub
      else push_offset ub \<le> k \<and> k < bufferSize ub \<or> 0 \<le> k \<and> k < push_pos ub)"
  by (simp add: push_new_unfold [OF assms] existBuffer_def)

lemma push_offset_le_length:
  assumes "ring_inv ub" "0 < bufferSize ub"
  shows "push_offset ub \<le> int (length (written w ub rs))"
proof (cases "push_offset ub = 0")
  case True
  then show ?thesis by simp
next
  case False
  then show ?thesis using push_bounds(7) [OF assms] push_bounds(4) [OF assms] by simp
qed

lemma slot_at_push_new:
  assumes "ring_inv ub" "0 < bufferSize ub"
  shows "slot_at (buffer (push_new w ub rs)) k =
     (if push_offset ub < push_pos ub
      then (if push_offset ub \<le> k \<and> k < push_pos ub then slot_at (written w ub rs) k
            else if 0 \<le> k \<and> k < int (length (written w ub rs)) then Cleared else Hole)
      else (if push_pos ub \<le> k \<and> k < push_offset ub then Cleared
            else slot_at (written w ub rs) k))"
proof (cases "push_offset ub < push_pos ub")
  case True
  have l: "push_offset ub \<le> int (length (clear_slots (written w ub rs) (push_pos ub)
             (int (length (written w ub rs)))))"
    using push_offset_le_length [OF assms] by (simp add: length_clear_slots)
  have m: "push_pos ub \<le> int (length (written w ub rs))"
    using push_bounds(6) [OF assms] .
  show ?thesis
    using True m push_bounds(1,3) [OF assms]
    by (simp add: push_new_unfold [OF assms] slot_at_clear_slots l)
       (auto simp: slot_at_def)
next
  case False
  show ?thesis
    using False push_bounds(1) [OF assms]
    by (simp add: push_new_unfold [OF assms] slot_at_clear_slots push_offset_le_length [OF assms])
qed

lemma length_push_new:
  assumes "ring_inv ub" "0 < bufferSize ub"
  shows "length (buffer (push_new w ub rs)) = length (written w ub rs)"
  by (simp add: push_new_unfold [OF assms] length_clear_slots push_offset_le_length [OF assms])

lemma push_new_fields:
  assumes "ring_inv ub" "0 < bufferSize ub"
  shows "pos (push_new w ub rs) = push_pos ub" "endPos (push_new w ub rs) = push_pos ub"
        "offset (push_new w ub rs) = push_offset ub"
        "bufferSize (push_new w ub rs) = bufferSize ub"
  by (simp_all add: push_new_unfold [OF assms])

lemma ring_inv_push_new:
  assumes "ring_inv ub" "0 < bufferSize ub"
  shows "ring_inv (push_new w ub rs)"
proof -
  note pb = push_bounds [OF assms]
  have valid: "i < int (length (written w ub rs)) \<and> is_piece (slot_at (buffer (push_new w ub rs)) i)"
    if v: "existBuffer (push_new w ub rs) (Some i)" for i
  proof -
    have old: "is_piece (slot_at (buffer ub) i)" if "i \<noteq> pos ub" "existBuffer ub (Some i)"
      using assms that by (simp add: ring_inv_def)
    have v': "if push_offset ub = push_pos ub then False
      else if push_offset ub < push_pos ub then push_offset ub \<le> i \<and> i < push_pos ub
      else push_offset ub \<le> i \<and> i < bufferSize ub \<or> 0 \<le> i \<and> i < push_pos ub"
      using v by (simp add: existBuffer_push_new [OF assms])
    have inwin: "i \<noteq> pos ub \<Longrightarrow> existBuffer ub (Some i)"
      using v' assms
      by (auto simp: existBuffer_def push_pos_def
          push_offset_def next_index_def ring_inv_def split: if_splits)
    have "is_piece (slot_at (written w ub rs) i)"
      using old inwin by (auto simp: slot_at_written [OF assms] is_piece_def)
    moreover have "i < int (length (written w ub rs))"
      using v' pb(6) [of w rs] pb(5,7) [of w rs] pb(1-4)
      by (auto split: if_splits)
    ultimately show ?thesis
      using v' by (auto simp: slot_at_push_new [OF assms] split: if_splits)
  qed
  show ?thesis
    unfolding ring_inv_def
    using assms(2) pb(1-4) pb(5,6,7) [of w rs] valid
    by (simp add: push_new_fields [OF assms] length_push_new [OF assms])
qed

lemma existBuffer_cong:
  "offset ub' = offset ub \<Longrightarrow> endPos ub' = endPos ub \<Longrightarrow> bufferSize ub' = bufferSize ub \<Longrightarrow>
   existBuffer ub' r = existBuffer ub r"
  by (cases r) (simp_all add: existBuffer_def)

lemma slot_at_update:
  "0 \<le> i \<Longrightarrow> slot_at (b[nat i := v]) k = (if k = i \<and> i < int (length b) then v else slot_at b k)"
  by (auto simp: slot_at_def nth_list_update nat_eq_iff)

lemma ring_inv_set_pos:
  assumes "ring_inv ub" "existBuffer ub (Some i)"
  shows "ring_inv (ub\<lparr>pos := i\<rparr>)"
proof -
  have e: "existBuffer (ub\<lparr>pos := i\<rparr>) r = existBuffer ub r" for r
    by (rule existBuffer_cong) simp_all
  have "0 < bufferSize ub" using assms by (auto simp: ring_inv_def existBuffer_def split: if_splits)
  then show ?thesis
    using assms unfolding ring_inv_def
    apply (simp add: e)
    apply (auto simp: existBuffer_def split: if_splits)
    done
qed

lemma ring_inv_next_pos:
  assumes "ring_inv ub" "existBuffer ub (Some (pos ub))"
  shows "ring_inv (ub\<lparr>pos := next_index (bufferSize ub) (pos ub)\<rparr>)"
proof -
  have e: "existBuffer (ub\<lparr>pos := j\<rparr>) r = existBuffer ub r" for r j
    by (rule existBuffer_cong) simp_all
  have "0 < bufferSize ub" using assms by (auto simp: ring_inv_def existBuffer_def split: if_splits)
  then show ?thesis
    using assms unfolding ring_inv_def
    apply (simp add: e)
    apply (auto simp: existBuffer_def next_index_def split: if_splits)
    done
qed

lemma ring_inv_fields:
  assumes "ring_inv ub" "offset ub' = offset ub" "endPos ub' = endPos ub" "pos ub' = pos ub"
    "bufferSize ub' = bufferSize ub" "buffer ub' = buffer ub"
  shows "ring_inv ub'"
proof -
  have e: "existBuffer ub' r = existBuffer ub r" for r
    using assms by (intro existBuffer_cong) simp_all
  show ?thesis using assms(1) by (simp add: ring_inv_def e assms(2-))
qed

lemma ring_inv_controller:
  "ring_inv ub \<Longrightarrow>
   ring_inv (ub\<lparr>caretRange := c, tempBuffer := t, observing := a, tempObserving := b,
                caretListening := l, frozenValue := v, arrays := h, nextArray := k\<rparr>)"
  by (erule ring_inv_fields) simp_all

lemma ring_inv_observing: "ring_inv ub \<Longrightarrow> ring_inv (ub\<lparr>observing := a\<rparr>)"
  by (erule ring_inv_fields) simp_all

lemma ring_inv_push:
  assumes "ring_inv ub" "push w ub rs m = Inr ub'"
  shows "ring_inv ub'"
proof (cases "bufferSize ub \<le> 0")
  case True
  then show ?thesis using assms by (simp add: push_def)
next
  case False
  then have c: "0 < bufferSize ub" by simp
  show ?thesis
  proof (cases "m \<and> existBuffer ub (lastWritten ub)")
    case True
    then obtain i where i: "lastWritten ub = Some i"
      by (cases "lastWritten ub") (auto simp: existBuffer_def)
    then obtain h where "ub' = ub\<lparr>arrays := h\<rparr>"
      using assms(2) True c by (auto simp: push_def Let_def split: slot.splits)
    then show ?thesis using ring_inv_fields [OF assms(1), of ub'] by simp
  next
    case False
    then have "ub' = push_new w ub rs" using assms(2) c by (auto simp: push_def Let_def split: if_splits)
    then show ?thesis using ring_inv_push_new [OF assms(1) c] by simp
  qed
qed

lemma ring_inv_undo:
  assumes "ring_inv ub" "undo (ub, w) = Inr (ub', w')"
  shows "ring_inv ub'"
proof (cases "existBuffer ub (lastWritten ub)")
  case False
  then show ?thesis using assms by (simp add: undo_def Let_def)
next
  case True
  then obtain i where i: "lastWritten ub = Some i"
    by (cases "lastWritten ub") (auto simp: existBuffer_def)
  then obtain h where u: "ub' = ub\<lparr>arrays := h, pos := i, observing := True\<rparr>"
    using assms(2) True
    by (auto simp: undo_def Let_def split: slot.splits sum.splits prod.splits)
  have v: "existBuffer ub (Some i)" using True i by simp
  have 1: "ring_inv (ub\<lparr>arrays := h\<rparr>)"
    by (rule ring_inv_fields [OF assms(1)]) simp_all
  have "existBuffer (ub\<lparr>arrays := h\<rparr>) (Some i) = existBuffer ub (Some i)"
    by (rule existBuffer_cong) simp_all
  then have "existBuffer (ub\<lparr>arrays := h\<rparr>) (Some i)"
    using v by simp
  from ring_inv_set_pos [OF 1 this] have "ring_inv (ub\<lparr>arrays := h, pos := i\<rparr>)"
    by simp
  from ring_inv_observing [OF this] show ?thesis by (simp add: u)
qed

lemma ring_inv_redo:
  assumes "ring_inv ub" "redo (ub, w) = Inr (ub', w')"
  shows "ring_inv ub'"
proof (cases "existBuffer ub (Some (pos ub))")
  case False
  then show ?thesis using assms by (simp add: redo_def Let_def)
next
  case True
  then have c: "0 < bufferSize ub" "0 \<le> pos ub" "pos ub < bufferSize ub"
    using assms(1) by (auto simp: ring_inv_def existBuffer_def split: if_splits)
  have u: "ub' = ub\<lparr>pos := next_index (bufferSize ub) (pos ub), observing := True\<rparr>"
    using assms(2) True js_rem_succ [OF c(2,3)]
    by (auto simp: redo_def Let_def next_index_def split: slot.splits sum.splits)
  from ring_inv_observing [OF ring_inv_next_pos [OF assms(1) True]] show ?thesis
    by (simp add: u)
qed

lemma ring_inv_new: "ring_inv (UndoBuffer_new doc tgt c)"
  by (simp add: ring_inv_def UndoBuffer_new_def existBuffer_def)

lemma reachable_ring_inv: "reachable ub \<Longrightarrow> ring_inv ub"
proof (induction rule: reachable.induct)
  case (reach_new doc tgt c)
  show ?case by (rule ring_inv_new)
next
  case (reach_push ub w rs m ub')
  then show ?case using ring_inv_push by blast
next
  case (reach_undo ub w ub' w')
  then show ?case using ring_inv_undo by blast
next
  case (reach_redo ub w ub' w')
  then show ?case using ring_inv_redo by blast
next
  case (reach_controller ub c t a b l v h k)
  then show ?case using ring_inv_controller by blast
qed

lemma reachable_arrays: "reachable ub \<Longrightarrow> reachable (ub\<lparr>arrays := h, nextArray := k\<rparr>)"
  using reach_controller [where ub = ub and c = "caretRange ub" and t = "tempBuffer ub"
      and a = "observing ub" and b = "tempObserving ub" and l = "caretListening ub"
      and v = "frozenValue ub" and h = h and k = k]
  by simp


lemma reachable_after_push: "reachable ub \<Longrightarrow> reachable (after_push w ub rs)"
  by (auto simp: after_push_def new_array_def split: sum.splits
      intro: reach_push reachable_arrays)

lemma reachable_after_undo: "reachable ub \<Longrightarrow> reachable (fst (after_undo (ub, w)))"
  by (auto simp: after_undo_def split: sum.splits intro: reach_undo)

lemma reachable_ring_undone: "reachable ring_undone"
  unfolding ring_undone_def
  by (intro reachable_after_undo reachable_after_push reach_new)

section \<open>Branch invalidation\<close>

lemma redoable_facts:
  assumes "ring_inv ub" "redoable ub j"
  shows "0 < bufferSize ub" "1 < bufferSize ub" "push_offset ub = offset ub"
    "j \<noteq> pos ub \<Longrightarrow> \<not> existBuffer (push_new w ub rs) (Some j)"
    "0 \<le> j" "j < int (length (buffer ub))"
proof -
  show c: "0 < bufferSize ub"
    using assms by (auto simp: ring_inv_def redoable_def existBuffer_def split: if_splits)
  show "1 < bufferSize ub"
    using assms by (auto simp: ring_inv_def redoable_def existBuffer_def split: if_splits)
  show o: "push_offset ub = offset ub"
    using assms
    by (auto simp: ring_inv_def redoable_def existBuffer_def push_offset_def push_pos_def
        next_index_def split: if_splits)
  show "\<not> existBuffer (push_new w ub rs) (Some j)" if "j \<noteq> pos ub"
    using assms that unfolding existBuffer_push_new [OF assms(1) c] o
    by (auto simp: ring_inv_def redoable_def existBuffer_def push_pos_def
        next_index_def split: if_splits)
  show "0 \<le> j" "j < int (length (buffer ub))"
    using assms by (auto simp: ring_inv_def redoable_def existBuffer_def split: if_splits)
qed


text \<open>
  C2. In every reachable state of the ring buffer, a push of a new batch
  (\<open>mode = false\<close>) invalidates every batch \<open>j\<close> that was available for redo, that is,
  after one or more calls of \<open>undo\<close>: the slot \<open>#pos\<close> now holds the new batch, every
  other such slot fails the validity test and holds the cleared value \<open>[]\<close>, every
  slot of the array outside the new window \<open>[offset, endPos)\<close> is cleared, and a
  \<open>redo\<close> after the push replays nothing.
\<close>

theorem push_discards_redo:
  assumes "reachable ub" and "redoable ub j"
  shows "push w ub rs False = Inr (push_new w ub rs)
    \<and> (if j = pos ub
        then slot_at (buffer (push_new w ub rs)) j =
               Piece \<lparr>records = rs, oldRange = caretRange ub, newRange = getCaret w\<rparr>
        else \<not> existBuffer (push_new w ub rs) (Some j)
             \<and> slot_at (buffer (push_new w ub rs)) j = Cleared)
    \<and> (\<forall>k. 0 \<le> k \<and> k < int (length (buffer (push_new w ub rs)))
             \<and> \<not> existBuffer (push_new w ub rs) (Some k)
          \<longrightarrow> slot_at (buffer (push_new w ub rs)) k = Cleared)
    \<and> redo (push_new w ub rs, v) = Inr (push_new w ub rs, v)"
proof -
  have inv: "ring_inv ub" using assms(1) by (rule reachable_ring_inv)
  note rf = redoable_facts [OF inv assms(2)]
  note c = rf(1)
  have ne: "push_offset ub \<noteq> push_pos ub" using push_bounds(8) [OF inv c rf(2)] .
  have cleared: "slot_at (buffer (push_new w ub rs)) k = Cleared"
    if "0 \<le> k" "k < int (length (buffer (push_new w ub rs)))"
       "\<not> existBuffer (push_new w ub rs) (Some k)" for k
    using that ne push_bounds(1-4) [OF inv c] push_bounds(5) [OF inv c, of w rs]
    unfolding existBuffer_push_new [OF inv c] length_push_new [OF inv c]
    by (auto simp: slot_at_push_new [OF inv c] split: if_splits)
  have 1: "push w ub rs False = Inr (push_new w ub rs)"
    using c by (simp add: push_def)
  have jlen: "j < int (length (buffer (push_new w ub rs)))"
    using rf(6) length_written [OF inv c, of w rs] by (simp add: length_push_new [OF inv c])
  have 2: "slot_at (buffer (push_new w ub rs)) j =
               Piece \<lparr>records = rs, oldRange = caretRange ub, newRange = getCaret w\<rparr>"
    if "j = pos ub"
    using that ne inv c push_bounds(1-4) [OF inv c]
    by (auto simp: slot_at_push_new [OF inv c] slot_at_written [OF inv c] push_pos_def
        push_offset_def next_index_def ring_inv_def split: if_splits)
  have 3: "redo (push_new w ub rs, v) = Inr (push_new w ub rs, v)"
  proof -
    have "\<not> existBuffer (push_new w ub rs) (Some (pos (push_new w ub rs)))"
      unfolding existBuffer_push_new [OF inv c] push_new_fields [OF inv c]
      using push_bounds(1-4) [OF inv c] by auto
    then show ?thesis by (simp add: redo_def Let_def)
  qed
  show ?thesis
    using 1 2 3 rf(4) [of w rs] cleared [OF rf(5) jlen] cleared by auto
qed

theorem push_discards_redo_witness:
  "reachable ring_undone \<and> redoable ring_undone 1 \<and> pos ring_undone = 1
   \<and> push w_plain ring_undone 2 False = Inr (push_new w_plain ring_undone 2)
   \<and> slot_at (buffer (push_new w_plain ring_undone 2)) 1 =
       Piece \<lparr>records = 2, oldRange = caretRange ring_undone, newRange = getCaret w_plain\<rparr>
   \<and> redo (push_new w_plain ring_undone 2, w_plain) = Inr (push_new w_plain ring_undone 2, w_plain)"
proof -
  have p: "pos ring_undone = 1" by code_simp
  have r: "redoable ring_undone 1" by code_simp
  show ?thesis
    using push_discards_redo [OF reachable_ring_undone r, of w_plain 2 w_plain] p r
      reachable_ring_undone
    by simp
qed

section \<open>The round trip of undo and redo\<close>

text \<open>
  C1. The round trip fails where a record removes more than one node. The host takes the
  two paragraphs 3 and 4 out of the root in one step; the observer logs the batch (the
  buffer holds 50 batches). After one call of \<open>undo\<close> the root holds the paragraphs
  in the order 4, 3: \<open>#undo\<close> inserts the removed nodes, last one first, each before the
  same \<open>nextSibling\<close>.
\<close>

theorem undo_reverses_removed_nodes:
  "childNodes (nodes w_two_paragraphs 2) = [3, 4]
   \<and> (case host_edit (UndoBuffer_new 0 2 50, w_two_paragraphs) (MClear 2) of
         Some (Inr s1) \<Rightarrow>
           childNodes (nodes (snd s1) 2) = [] \<and> pos (fst s1) = 1
           \<and> (case undo s1 of
                 Inr s2 \<Rightarrow> childNodes (nodes (snd s2) 2) = [4, 3] \<and> pos (fst s2) = 0
               | Inl e \<Rightarrow> False)
       | _ \<Rightarrow> False)"
  by code_simp

text \<open>
  With a buffer of capacity 1 the validity window is always empty: the one edit is
  logged and \<open>undo\<close> changes nothing.
\<close>

lemma undo_with_capacity_one:
  "(case host_edit (UndoBuffer_new 0 2 1, w_two_paragraphs) (MClear 2) of
      Some (Inr s1) \<Rightarrow>
        childNodes (nodes (snd s1) 2) = []
        \<and> (case undo s1 of
              Inr s2 \<Rightarrow> pos (fst s2) = pos (fst s1) \<and> heap_list (snd s2) = heap_list (snd s1)
            | Inl e \<Rightarrow> False)
    | _ \<Rightarrow> False)"
  by code_simp

section \<open>Nested paragraphs\<close>

text \<open>
  C6. The paragraph 4, which holds a text node, is inserted into the paragraph 3.
  Normalization changes neither the tree nor the batch: the rule for nodes with a
  text child is taken first and does nothing below the root, so the paragraphs stay
  nested.
\<close>

theorem nested_paragraph_with_text_stays:
  "is_element w_nested_text 3 ''p'' \<and> is_element w_nested_text 4 ''p''
   \<and> parentNode (nodes w_nested_text 4) = Some 3
   \<and> (case normalize 2 w_nested_text [inserted 3 [4] None None] of
         Some (Inr (w, rs)) \<Rightarrow>
           heap_list w = heap_list w_nested_text \<and> rs = [inserted 3 [4] None None]
       | _ \<Rightarrow> False)"
  by code_simp

text \<open>
  Where the rule does unwrap, the children are moved through the live list
  \<open>node.childNodes\<close>: with a following sibling 7 as the reference, only the first of the
  two children of the paragraph 4 reaches the outer paragraph, the second stays in the
  removed paragraph; the batch is left empty.
\<close>

lemma nested_paragraph_loses_child:
  "(case normalize 2 w_nested_spans [inserted 3 [4] None (Some 7)] of
      Some (Inr (w, rs)) \<Rightarrow>
        childNodes (nodes w 3) = [5, 7] \<and> childNodes (nodes w 4) = [6]
        \<and> parentNode (nodes w 4) = None \<and> rs = []
    | _ \<Rightarrow> False)"
  by code_simp

section \<open>Child list edits and their inverses\<close>












lemma detach_fields [simp]: "fresh (detach w n) = fresh w" "selection (detach w n) = selection w"
  by (simp_all add: detach_def node_upd_def split: option.splits)

lemma attach_fields [simp]: "fresh (attach w p n r) = fresh w" "selection (attach w p n r) = selection w"
  by (simp_all add: attach_def node_upd_def)



















lemma undo_loop_length: "undo_loop w rs i = Inr (w', rs') \<Longrightarrow> length rs' = length rs"
  by (induction i arbitrary: w rs) (auto split: sum.splits prod.splits)












lemma nodes_revalue [simp]:
  "nodes (revalue v w) n = (nodes w n)\<lparr>nodeValue := nodeValue (nodes v n)\<rparr>"
  "fresh (revalue v w) = fresh w" "selection (revalue v w) = selection v"
  by (simp_all add: revalue_def)

lemma revalue_revalue [simp]: "revalue v (revalue u w) = revalue v w"
  by (simp add: revalue_def)

lemma ancestor_revalue [simp]: "inclusive_ancestor (revalue v w) a n = inclusive_ancestor w a n"
proof
  assume "inclusive_ancestor (revalue v w) a n"
  then show "inclusive_ancestor w a n"
    by (induction rule: inclusive_ancestor.induct) (auto intro: inclusive_ancestor.intros)
next
  assume "inclusive_ancestor w a n"
  then show "inclusive_ancestor (revalue v w) a n"
    by (induction rule: inclusive_ancestor.induct) (auto intro: inclusive_ancestor.intros)
qed

lemma tree_ok_revalue [simp]: "tree_ok (revalue v w) = tree_ok w"
  by (simp add: tree_ok_def)

lemma revalue_cong:
  assumes "\<And>n. nodeValue (nodes v n) = nodeValue (nodes u n)" "selection v = selection u"
  shows "revalue v w = revalue u w"
  using assms by (simp add: revalue_def)



lemma nextSibling_revalue [simp]: "node_nextSibling (revalue v w) n = node_nextSibling w n"
  by (simp add: node_nextSibling_def cong: option.case_cong)

lemma insert_error_revalue [simp]: "insert_error (revalue v w) p n r = insert_error w p n r"
  by (simp add: insert_error_def cong: option.case_cong)









lemma revalue_self [simp]: "revalue w w = w"
  by (rule world.equality) (simp_all add: fun_eq_iff)








section \<open>A cancelled composition\<close>


text \<open>
  Nor is a child list change rolled back that the temporary observer is not told of:
  the removal of the root 2 itself from its parent 1; and the removal of the line break
  5 from the paragraph 3 in a task after the one that took the paragraph out of the
  root. When both removals happen in one task the observer is told of both, and both
  are rolled back.
\<close>

lemma cancelled_composition_outside_root:
  "childNodes (nodes w_plain 1) = [2]
   \<and> (case composition_session (UndoBuffer_new 0 2 50, w_plain) [[MRemove 1 2]] [] of
         Some (Inr s) \<Rightarrow> childNodes (nodes (snd s) 1) = [] \<and> tempBuffer (fst s) = []
       | _ \<Rightarrow> False)
   \<and> (case composition_session (UndoBuffer_new 0 2 50, w_text_break)
            [[MRemove 2 3], [MRemove 3 5]] [] of
         Some (Inr s) \<Rightarrow>
           childNodes (nodes (snd s) 2) = [3] \<and> childNodes (nodes (snd s) 3) = [4]
       | _ \<Rightarrow> False)
   \<and> (case composition_session (UndoBuffer_new 0 2 50, w_text_break)
            [[MRemove 2 3, MRemove 3 5]] [] of
         Some (Inr s) \<Rightarrow>
           childNodes (nodes (snd s) 2) = [3] \<and> childNodes (nodes (snd s) 3) = [4, 5]
       | _ \<Rightarrow> False)"
  by code_simp



section \<open>Appending to the last batch\<close>




section \<open>Errors and no-ops\<close>

lemma enclosing_paragraph_unfold [code]:
  "enclosing_paragraph w root n =
     (n \<noteq> root \<and> (is_element w n ''p''
        \<or> (case parentNode (nodes w n) of
              None \<Rightarrow> False
            | Some q \<Rightarrow> enclosing_paragraph w root q)))"
  by (auto intro: enclosing_paragraph.intros elim: enclosing_paragraph.cases split: option.splits)

lemma updateCaret_ok: "caret_ok w c \<Longrightarrow> updateCaret w (Some c) = Inr (w\<lparr>selection := Some c\<rparr>)"
  by (auto simp: updateCaret_def caret_ok_def)

lemma paragraph_above_root:
  assumes "inclusive_ancestor w root n" "\<not> enclosing_paragraph w root n"
  shows "paragraph_above w root (Some n) = Some (Inr False)"
  using assms
proof (induction rule: inclusive_ancestor.induct)
  case (ia_self n)
  then show ?case by (subst paragraph_above.simps) simp
next
  case (ia_parent n q a)
  show ?case
  proof (cases "n = a")
    case True
    then show ?thesis by (subst paragraph_above.simps) simp
  next
    case False
    have 1: "\<not> is_element w n ''p''"
      using ia_parent.prems False by (auto intro: enclosing_paragraph.intros)
    have 2: "\<not> enclosing_paragraph w a q"
      using ia_parent.prems False ia_parent.hyps(1) by (auto intro: enclosing_paragraph.intros)
    have "paragraph_above w a (Some n) = paragraph_above w a (Some q)"
      using False 1 ia_parent.hyps(1)
      by (subst paragraph_above.simps) (auto simp: is_element_def)
    then show ?thesis using ia_parent.IH [OF 2] by simp
  qed
qed

lemma normalize_node_idle:
  assumes "\<not> rule_applies root w (target r) (addedNodes r ! j)"
    and "inclusive_ancestor w root (target r)"
  shows "normalize_node root w rng rs i j r = Some (Inr (w, rng, rs, int i, int j, r))"
proof (cases "parentNode (nodes w (addedNodes r ! j)) = Some (target r)")
  case False
  then show ?thesis by (simp add: normalize_node_def Let_def)
next
  case True
  have pa: "paragraph_above w root (Some (target r)) = Some (Inr False)"
    if "\<not> enclosing_paragraph w root (target r)"
    using assms(2) that by (rule paragraph_above_root)
  show ?thesis
    using assms(1) True pa unfolding rule_applies_def normalize_node_def Let_def
    by (auto split: if_splits option.splits)
qed

lemma normalize_added_idle:
  assumes "\<forall>j<length (addedNodes r).
             normalize_node root w rng rs i j r = Some (Inr (w, rng, rs, int i, int j, r))"
    and "j \<le> length (addedNodes r)"
  shows "normalize_added root (w, rng, rs, int i, int j, r) =
           Some (Inr (w, rng, rs, int i, int (length (addedNodes r)), r))"
  using assms(2)
proof (induction "length (addedNodes r) - j" arbitrary: j)
  case 0
  then have "j = length (addedNodes r)" by simp
  then show ?case by (subst normalize_added.simps) simp
next
  case (Suc k)
  then have j: "j < length (addedNodes r)" by simp
  have "normalize_added root (w, rng, rs, int i, int j, r) =
      normalize_added root (w, rng, rs, int i, int j + 1, r)"
    using j assms(1) by (subst normalize_added.simps) simp
  also have "\<dots> = normalize_added root (w, rng, rs, int i, int (Suc j), r)"
    by (simp add: add.commute)
  also have "\<dots> = Some (Inr (w, rng, rs, int i, int (length (addedNodes r)), r))"
    using Suc(1) [of "Suc j"] Suc(2) j by simp
  finally show ?case .
qed

lemma normalize_records_idle:
  assumes "no_rule root w rs" and "i \<le> length rs"
  shows "normalize_records root w rng rs (int i) = Some (Inr (w, rng, rs))"
  using assms(2)
proof (induction "length rs - i" arbitrary: i)
  case 0
  then have "i = length rs" by simp
  then show ?case by (subst normalize_records.simps) simp
next
  case (Suc k)
  then have i: "i < length rs" by simp
  have step: "normalize_records root w rng rs (int i) =
      normalize_records root w rng rs (int i + 1)"
  proof (cases "rtype (rs ! i) = ChildList")
    case True
    have "inclusive_ancestor w root (target (rs ! i))"
      and "\<forall>j<length (addedNodes (rs ! i)).
             \<not> rule_applies root w (target (rs ! i)) (addedNodes (rs ! i) ! j)"
      using assms(1) i True by (auto simp: no_rule_def list_all_length)
    then have "\<forall>j<length (addedNodes (rs ! i)).
             normalize_node root w rng rs i j (rs ! i) =
               Some (Inr (w, rng, rs, int i, int j, rs ! i))"
      by (simp add: normalize_node_idle)
    from normalize_added_idle [OF this, of 0]
    show ?thesis using i True by (subst normalize_records.simps) simp
  next
    case False
    then show ?thesis using i by (subst normalize_records.simps) simp
  qed
  also have "\<dots> = normalize_records root w rng rs (int (Suc i))"
    by (simp add: add.commute)
  also have "\<dots> = Some (Inr (w, rng, rs))"
    using Suc(1) [of "Suc i"] Suc(2) i by simp
  finally show ?case .
qed

lemma normalize_no_rule:
  assumes "no_rule root w rs" "selection w = Some c" "caret_ok w c"
  shows "normalize root w rs = Some (Inr (w, rs))"
  using normalize_records_idle [OF assms(1), of 0 "getCaret w"] assms(2)
    updateCaret_ok [OF assms(3)]
  by (simp add: normalize_def getCaret_def)

lemma boundary_undo:
  assumes "ring_inv ub" "pos ub = offset ub \<and> bufferSize ub \<le> 2 ^ 52 \<or> bufferSize ub \<le> 0"
  shows "undo (ub, w) = Inr (ub, w)"
proof -
  have "\<not> existBuffer ub (lastWritten ub)"
  proof (cases "bufferSize ub \<le> 0")
    case True
    then show ?thesis using assms(1) by (simp add: ring_inv_def existBuffer_def split: option.splits)
  next
    case False
    then have b: "0 \<le> pos ub" "pos ub < bufferSize ub" and p: "pos ub = offset ub"
      and c: "bufferSize ub \<le> 2 ^ 52"
      using assms by (simp_all add: ring_inv_def)
    show ?thesis
      unfolding lastWritten_exact [OF b c]
      using assms(1) False p by (auto simp: existBuffer_def ring_inv_def)
  qed
  then show ?thesis by (simp add: undo_def Let_def)
qed

lemma boundary_redo:
  assumes "ring_inv ub" "pos ub = endPos ub \<or> bufferSize ub \<le> 0"
  shows "redo (ub, w) = Inr (ub, w)"
proof -
  have "\<not> existBuffer ub (Some (pos ub))"
    using assms by (auto simp: existBuffer_def ring_inv_def split: if_splits)
  then show ?thesis by (simp add: redo_def Let_def)
qed

lemma push_returns:
  assumes "ring_inv ub"
  shows "\<exists>ub'. push w ub rs m = Inr ub'"
proof (cases "0 < bufferSize ub \<and> m \<and> existBuffer ub (lastWritten ub)")
  case True
  then obtain i where i: "lastWritten ub = Some i"
    by (cases "lastWritten ub") (auto simp: existBuffer_def)
  then have "is_piece (slot_at (buffer ub) i)"
    using assms True by (auto simp: ring_inv_def)
  then obtain p where "slot_at (buffer ub) i = Piece p"
    by (cases "slot_at (buffer ub) i") (auto simp: is_piece_def)
  then show ?thesis using True i by (simp add: push_def Let_def)
next
  case False
  then show ?thesis by (auto simp: push_def Let_def)
qed

text \<open>
  C9, as stated, fails: \<open>undo\<close> passes on the host's exception when the tree no longer
  matches the batch. The batch records the insertion of node 3 under the root, the root
  has no child, and \<open>removeChild\<close> throws a NotFoundError.
\<close>

theorem undo_raises_on_diverged_tree:
  "childNodes (nodes w_plain 2) = []
   \<and> (case undo (after_push w_plain (UndoBuffer_new 0 2 50) [inserted 2 [3] None None], w_plain) of
         Inl e \<Rightarrow> e = NotFoundError
       | Inr s \<Rightarrow> False)"
  by code_simp

text \<open>
  Normalization itself throws when the window has no selection: \<open>getCaret\<close> returns
  \<open>null\<close>, which \<open>normalize\<close> hands to \<open>updateCaret\<close>. It also throws for a
  paragraph whose record has a target outside the subtree of the root, here the
  paragraph 4 under the element 3 that has left the tree: the walk up to the root reads
  \<open>nodeType\<close> of \<open>null\<close>.
\<close>

lemma normalize_without_selection:
  "(case normalize 2 (w_plain\<lparr>selection := None\<rparr>) [] of
      Some (Inl e) \<Rightarrow> e = TypeError
    | _ \<Rightarrow> False)"
  by code_simp

lemma normalize_outside_root:
  "\<not> inclusive_ancestor w_detached_div 2 3
   \<and> \<not> rule_applies 2 w_detached_div 3 4
   \<and> (case normalize 2 w_detached_div [inserted 3 [4] None None] of
         Some (Inl e) \<Rightarrow> e = TypeError
       | _ \<Rightarrow> False)"
  by code_simp

text \<open>
  C9, amended. In every reachable state of the buffer \<open>push\<close> returns without an
  error; with a capacity of zero or less \<open>push\<close>, \<open>undo\<close> and \<open>redo\<close> change
  neither buffer nor tree; \<open>undo\<close> at the oldest batch (\<open>pos = offset\<close>, with a
  capacity of at most \<open>2^52\<close>) and \<open>redo\<close> at the newest (\<open>pos = endPos\<close>) change
  neither buffer nor tree; and normalization of a batch to which no rule of the chain
  applies, whose child list records have their targets in the subtree of the root,
  returns the batch and the host's state unchanged, when the window has a selection
  with offsets within its nodes.
\<close>

theorem core_noops:
  assumes "reachable ub"
  shows "(\<exists>ub'. push w ub rs m = Inr ub')
    \<and> (bufferSize ub \<le> 0 \<longrightarrow>
          push w ub rs m = Inr ub \<and> undo (ub, w) = Inr (ub, w) \<and> redo (ub, w) = Inr (ub, w))
    \<and> (pos ub = offset ub \<and> bufferSize ub \<le> 2 ^ 52 \<longrightarrow> undo (ub, w) = Inr (ub, w))
    \<and> (pos ub = endPos ub \<longrightarrow> redo (ub, w) = Inr (ub, w))
    \<and> (no_rule root w recs \<and> selection w = Some c \<and> caret_ok w c \<longrightarrow>
          normalize root w recs = Some (Inr (w, recs)))"
proof -
  have inv: "ring_inv ub" using assms by (rule reachable_ring_inv)
  show ?thesis
    using push_returns [OF inv] boundary_undo [OF inv] boundary_redo [OF inv]
      normalize_no_rule [of root w recs c]
    by (auto simp: push_def)
qed

theorem core_noops_witness:
  "reachable (UndoBuffer_new 0 2 50) \<and> reachable (UndoBuffer_new 0 2 0)
   \<and> undo (UndoBuffer_new 0 2 50, w_two_paragraphs) = Inr (UndoBuffer_new 0 2 50, w_two_paragraphs)
   \<and> redo (UndoBuffer_new 0 2 50, w_two_paragraphs) = Inr (UndoBuffer_new 0 2 50, w_two_paragraphs)
   \<and> push w_two_paragraphs (UndoBuffer_new 0 2 0) 0 False = Inr (UndoBuffer_new 0 2 0)
   \<and> normalize 2 w_two_paragraphs [inserted 2 [4] (Some 3) None] =
        Some (Inr (w_two_paragraphs, [inserted 2 [4] (Some 3) None]))"
proof -
  have r: "reachable (UndoBuffer_new 0 2 50)" "reachable (UndoBuffer_new 0 2 0)"
    by (rule reach_new)+
  have f: "no_rule 2 w_two_paragraphs [inserted 2 [4] (Some 3) None]"
    by code_simp
  have s: "selection w_two_paragraphs = Some (caret_at 2 0)"
    by (simp add: w_two_paragraphs_def heap_of_def)
  have c: "caret_ok w_two_paragraphs (caret_at 2 0)"
    by code_simp
  have p: "pos (UndoBuffer_new 0 2 50) = offset (UndoBuffer_new 0 2 50)"
    "pos (UndoBuffer_new 0 2 50) = endPos (UndoBuffer_new 0 2 50)"
    "bufferSize (UndoBuffer_new 0 2 0) \<le> 0" "bufferSize (UndoBuffer_new 0 2 50) \<le> 2 ^ 52"
    by (simp_all add: UndoBuffer_new_def)
  show ?thesis
    using core_noops [OF r(1), of w_two_paragraphs 0 False 2 "[inserted 2 [4] (Some 3) None]" "caret_at 2 0"]
      core_noops [OF r(2), of w_two_paragraphs 0 False 2 "[]" "caret_at 2 0"]
      r f s c p
    by blast
qed

section \<open>A committed composition\<close>














end
